theory Spec2Isabelle
  imports Complex_Main "HOL-Library.Stream" "HOL-Library.Log_Nat"
begin

section \<open>Python values and library calls used by the notebooks\<close>

text \<open>
  Floating-point numbers are idealised as exact reals; every other piece of behaviour
  (integer dtypes, truncating casts, exceptions, index wrap-around) is written out. Where
  a property compares two computed numbers for equality the rounding decides, so the
  temporal-difference targets of the tabular agents are given a second time below, as
  float64 arithmetic computes them.
\<close>

datatype py_error = IndexError | ValueError | FloatingPointError

datatype pynum = PyInt int | PyFloat real

fun as_float :: "pynum \<Rightarrow> real" where
  "as_float (PyInt i) = of_int i"
| "as_float (PyFloat x) = x"

fun is_int :: "pynum \<Rightarrow> bool" where
  "is_int (PyInt i) = True"
| "is_int (PyFloat x) = False"

text \<open>The C cast that numpy applies for \<^verbatim>\<open>astype(np.int)\<close> and for storing a float into an
  integer array: truncation toward zero.\<close>

definition trunc :: "real \<Rightarrow> int" where
  "trunc x = (if 0 \<le> x then \<lfloor>x\<rfloor> else \<lceil>x\<rceil>)"

datatype dtype = Int64 | Float64

text \<open>\<^verbatim>\<open>np.zeros_like(rewards)\<close> on a Python list takes the dtype numpy infers for the list:
  an integer array when the list is non-empty and holds only Python ints, a float array
  otherwise.\<close>

definition zeros_like_dtype :: "pynum list \<Rightarrow> dtype" where
  "zeros_like_dtype xs = (if xs \<noteq> [] \<and> list_all is_int xs then Int64 else Float64)"

fun store :: "dtype \<Rightarrow> real \<Rightarrow> pynum" where
  "store Int64 x = PyInt (trunc x)"
| "store Float64 x = PyFloat x"

subsection \<open>float64 arithmetic\<close>

text \<open>
  A finite float64 is a real \<open>m * 2\<^sup>k\<close> with \<open>\<bar>m\<bar> < 2\<^sup>5\<^sup>3\<close> and \<open>-1074 \<le> k\<close>. Every arithmetic
  operation returns the exact result rounded to the nearest such number, a tie going to
  the even significand: the result is rounded to a multiple of the unit in the last place
  of its binade \<open>[2\<^sup>e, 2\<^sup>e\<^sup>+\<^sup>1)\<close>, which is \<open>2\<^sup>e\<^sup>-\<^sup>5\<^sup>2\<close>, and to a multiple of \<open>2\<^sup>-\<^sup>1\<^sup>0\<^sup>7\<^sup>4\<close> below the
  normal range. Results of magnitude \<open>2\<^sup>1\<^sup>0\<^sup>2\<^sup>4\<close> and more, which float64 turns into
  infinities, are outside this model.
\<close>

definition pow2 :: "int \<Rightarrow> real" where
  "pow2 k = (if 0 \<le> k then 2 ^ nat k else 1 / 2 ^ nat (- k))"

definition round_half_even :: "real \<Rightarrow> int" where
  "round_half_even x =
     (let n = \<lfloor>x\<rfloor>; d = x - of_int n
      in if d < 1 / 2 then n else if 1 / 2 < d then n + 1 else if even n then n else n + 1)"

text \<open>The exponent \<open>e\<close> with \<open>2\<^sup>e \<le> \<bar>x\<bar> < 2\<^sup>e\<^sup>+\<^sup>1\<close>, from the bit length (\<open>floorlog 2\<close>) of the
  integer part of \<open>\<bar>x\<bar>\<close> or, below 1, of its reciprocal.\<close>

definition binary_exponent :: "real \<Rightarrow> int" where
  "binary_exponent x =
     (if 1 \<le> \<bar>x\<bar> then int (floorlog 2 (nat \<lfloor>\<bar>x\<bar>\<rfloor>)) - 1
      else - int (floorlog 2 (nat (\<lceil>1 / \<bar>x\<bar>\<rceil> - 1))))"

definition fl64 :: "real \<Rightarrow> real" where
  "fl64 x =
     (if x = 0 then 0
      else let ulp = pow2 (max (binary_exponent x) (- 1022) - 52)
           in of_int (round_half_even (x / ulp)) * ulp)"

text \<open>\<^verbatim>\<open>x + y\<close> and \<^verbatim>\<open>x * y\<close> on two float64 values.\<close>

definition f64_add :: "real \<Rightarrow> real \<Rightarrow> real" where
  "f64_add x y = fl64 (x + y)"

definition f64_mul :: "real \<Rightarrow> real \<Rightarrow> real" where
  "f64_mul x y = fl64 (x * y)"

section \<open>REINFORCE: discounted returns\<close>

text \<open>
  \<^verbatim>\<open>PGAgent.calc_returns\<close>: the loop runs \<^verbatim>\<open>t\<close> from the last index down to 0, carrying
  \<^verbatim>\<open>cumulative\<close> (a Python float, started at 0.0) and writing it to \<^verbatim>\<open>returns[t]\<close>.
  One loop iteration is \<open>calc_returns_step\<close>; \<open>foldr\<close> visits the last reward first.
\<close>

definition calc_returns_step :: "real \<Rightarrow> dtype \<Rightarrow> pynum \<Rightarrow> real \<times> pynum list \<Rightarrow> real \<times> pynum list" where
  "calc_returns_step gamma dt r st =
     (let cumulative = as_float r + gamma * fst st
      in (cumulative, store dt cumulative # snd st))"

definition calc_returns :: "real \<Rightarrow> pynum list \<Rightarrow> pynum list" where
  "calc_returns gamma rewards =
     snd (foldr (calc_returns_step gamma (zeros_like_dtype rewards)) rewards (0, []))"

section \<open>Replay memory\<close>

text \<open>
  \<^verbatim>\<open>collections.deque(maxlen=m).append(x)\<close>: the item is added on the right and, when the
  deque then holds more than \<open>m\<close> items, one item is dropped on the left.
\<close>

definition deque_append :: "nat \<Rightarrow> 'a list \<Rightarrow> 'a \<Rightarrow> 'a list" where
  "deque_append maxlen d x = (let d' = d @ [x] in if length d' > maxlen then tl d' else d')"

section \<open>Control flow\<close>

text \<open>
  A \<^verbatim>\<open>while True:\<close> loop whose body either goes round again, leaves with \<^verbatim>\<open>break\<close>, or
  raises. The loop need not terminate (the environment decides when an episode is done),
  so its result is an option: \<open>None\<close> is a loop that runs forever.
\<close>

datatype ('s, 'r) flow = Continue 's | Break 'r

partial_function (option) while_true ::
  "('s \<Rightarrow> py_error + ('s, 'r) flow) \<Rightarrow> 's \<Rightarrow> (py_error + 'r) option" where
  "while_true body s =
     (case body s of
        Inl e \<Rightarrow> Some (Inl e)
      | Inr (Continue s') \<Rightarrow> while_true body s'
      | Inr (Break r) \<Rightarrow> Some (Inr r))"

text \<open>The loop state after \<open>k\<close> complete iterations, none of which left the loop.\<close>

fun iterations :: "('s \<Rightarrow> py_error + ('s, 'r) flow) \<Rightarrow> nat \<Rightarrow> 's \<Rightarrow> 's option" where
  "iterations body 0 s = Some s"
| "iterations body (Suc k) s =
     (case body s of Inr (Continue s') \<Rightarrow> iterations body k s' | _ \<Rightarrow> None)"

text \<open>Sequencing of calls that may raise, and of loops that may also run forever.\<close>

fun attempt :: "py_error + 'a \<Rightarrow> ('a \<Rightarrow> py_error + 'b) \<Rightarrow> py_error + 'b" where
  "attempt (Inl e) f = Inl e"
| "attempt (Inr x) f = f x"

fun and_then :: "(py_error + 'a) option \<Rightarrow> ('a \<Rightarrow> (py_error + 'b) option) \<Rightarrow> (py_error + 'b) option" where
  "and_then None f = None"
| "and_then (Some (Inl e)) f = Some (Inl e)"
| "and_then (Some (Inr x)) f = f x"

section \<open>Random numbers\<close>

text \<open>
  The global generator of \<^verbatim>\<open>np.random\<close> is the stream of raw draws it will deliver; every
  call takes the next one. \<^verbatim>\<open>random()\<close> turns 53 random bits into a float in \<open>[0, 1)\<close>;
  \<^verbatim>\<open>randint(low, high)\<close> raises ValueError on an empty range and otherwise reduces the draw
  into \<open>[low, high)\<close>.
\<close>

type_synonym rng = "nat stream"

definition np_random :: "rng \<Rightarrow> real \<times> rng" where
  "np_random g = (real (shd g mod 2 ^ 53) / 2 ^ 53, stl g)"

definition np_randint :: "nat \<Rightarrow> nat \<Rightarrow> rng \<Rightarrow> py_error + nat \<times> rng" where
  "np_randint low high g =
     (if high \<le> low then Inl ValueError else Inr (low + shd g mod (high - low), stl g))"

section \<open>The environment\<close>

text \<open>
  The gym environment is an external collaborator: its behaviour is a parameter, a record
  of functions over the environment's own state \<open>'e\<close>. A reward is a Python number.
\<close>

type_synonym observation = "real list"

record 'e env_ops =
  env_reset :: "'e \<Rightarrow> observation \<times> 'e"
  env_step :: "nat \<Rightarrow> 'e \<Rightarrow> (observation \<times> pynum \<times> bool) \<times> 'e"
  env_render :: "'e \<Rightarrow> 'e"
  env_close :: "'e \<Rightarrow> 'e"
  observation_space_low :: "real list"
  observation_space_high :: "real list"
  action_space_n :: nat

section \<open>Agents: the attributes all five classes share\<close>

text \<open>
  \<open>env\<close> is the current state of the object \<^verbatim>\<open>self.env\<close> refers to; \<open>np_rng\<close> is the global
  numpy generator, carried with the agent because every method that draws advances it.
  \<open>stats\<close> is \<^verbatim>\<open>self.stats['rewards']\<close>.
\<close>

record 'e agent =
  env :: 'e
  num_episodes :: nat
  gamma :: real
  stats :: "real list"
  np_rng :: rng

record 'e value_agent = "'e agent" +
  epsilon :: real
  verbose :: int
  to_show :: int

text \<open>\<^verbatim>\<open>self.stats['rewards'].append(0)\<close> and \<^verbatim>\<open>self.stats['rewards'][-1] += reward\<close>.\<close>

definition stats_append :: "real list \<Rightarrow> real \<Rightarrow> real list" where
  "stats_append st x = st @ [x]"

definition stats_add_last :: "real list \<Rightarrow> pynum \<Rightarrow> py_error + real list" where
  "stats_add_last st reward =
     (if st = [] then Inl IndexError else Inr (butlast st @ [last st + as_float reward]))"

section \<open>Tabular agents (SarsaAgent and QLearningAgent)\<close>

text \<open>
  A numpy array of floats: its shape and the value at every in-range index. An index
  \<open>i\<close> into a dimension of size \<open>n\<close> is valid for \<open>-n \<le> i < n\<close>, negative indices counting
  from the end; anything else raises IndexError.
\<close>

record ndarray =
  shape :: "nat list"
  cells :: "nat list \<Rightarrow> real"

definition np_zeros :: "nat list \<Rightarrow> ndarray" where
  "np_zeros sh = \<lparr>shape = sh, cells = (\<lambda>_. 0)\<rparr>"

definition norm_index :: "nat \<Rightarrow> int \<Rightarrow> py_error + nat" where
  "norm_index n i =
     (if 0 \<le> i \<and> i < int n then Inr (nat i)
      else if - int n \<le> i \<and> i < 0 then Inr (nat (i + int n))
      else Inl IndexError)"

fun norm_indices :: "nat list \<Rightarrow> int list \<Rightarrow> py_error + nat list" where
  "norm_indices [] [] = Inr []"
| "norm_indices (n # ns) (i # is) =
     attempt (norm_index n i) (\<lambda>j. attempt (norm_indices ns is) (\<lambda>js. Inr (j # js)))"
| "norm_indices _ _ = Inl IndexError"

text \<open>\<^verbatim>\<open>q_table[state]\<close> for a tuple indexing every dimension but the last: the row of
  action values. \<^verbatim>\<open>q_table[idx]\<close> and \<^verbatim>\<open>q_table[idx] = v\<close> for a full index.\<close>

definition q_row :: "ndarray \<Rightarrow> int list \<Rightarrow> py_error + real list" where
  "q_row t state =
     attempt (norm_indices (butlast (shape t)) state)
       (\<lambda>js. Inr (map (\<lambda>a. cells t (js @ [a])) [0..<last (shape t)]))"

definition q_get :: "ndarray \<Rightarrow> int list \<Rightarrow> py_error + real" where
  "q_get t idx = attempt (norm_indices (shape t) idx) (\<lambda>js. Inr (cells t js))"

definition q_set :: "ndarray \<Rightarrow> int list \<Rightarrow> real \<Rightarrow> py_error + ndarray" where
  "q_set t idx v =
     attempt (norm_indices (shape t) idx) (\<lambda>js. Inr (t\<lparr>cells := (cells t)(js := v)\<rparr>))"

definition row_get :: "real list \<Rightarrow> nat \<Rightarrow> py_error + real" where
  "row_get row i = (if i < length row then Inr (row ! i) else Inl IndexError)"

text \<open>\<^verbatim>\<open>np.max\<close> of a one-dimensional array; ValueError on an empty one.\<close>

definition np_max :: "real list \<Rightarrow> py_error + real" where
  "np_max xs = (if xs = [] then Inl ValueError else Inr (Max (set xs)))"

text \<open>The two classes declare the same attributes and share \<^verbatim>\<open>__init__\<close>,
  \<^verbatim>\<open>get_discrete_state\<close>, \<^verbatim>\<open>epsilon_greedy_selection\<close> and \<^verbatim>\<open>act\<close> word for word.\<close>

record 'e tabular_agent = "'e value_agent" +
  grid_size :: "real list"
  q_table :: ndarray
  alpha :: real

text \<open>
  \<^verbatim>\<open>__init__(env, num_grids)\<close>. The element-wise operations need vectors of one length
  (numpy raises ValueError otherwise). Division by a zero grid count gives an infinite
  cell width under numpy's default error handling; the model stops there with
  FloatingPointError, as numpy does under \<^verbatim>\<open>np.seterr(all='raise')\<close>.
\<close>

definition tabular_init :: "'e env_ops \<Rightarrow> 'e \<Rightarrow> nat list \<Rightarrow> rng \<Rightarrow> py_error + 'e tabular_agent" where
  "tabular_init E e num_grids g =
     (if length (observation_space_high E) = length (observation_space_low E)
         \<and> length num_grids = length (observation_space_low E)
      then if 0 \<in> set num_grids then Inl FloatingPointError
           else Inr \<lparr>env = e, num_episodes = 5000, gamma = 99 / 100, stats = [], np_rng = g,
                     epsilon = 3 / 10, verbose = 200, to_show = 500,
                     grid_size = map2 (\<lambda>d n. d / real n)
                        (map2 (-) (observation_space_high E) (observation_space_low E)) num_grids,
                     q_table = np_zeros (num_grids @ [action_space_n E]),
                     alpha = 1 / 10\<rparr>
      else Inl ValueError)"

text \<open>\<^verbatim>\<open>get_discrete_state\<close>: subtract the lower bound, divide by the cell width, cast to
  integers. A zero cell width is a division by zero (see above).\<close>

definition get_discrete_state :: "'e env_ops \<Rightarrow> 'e tabular_agent \<Rightarrow> observation \<Rightarrow> py_error + int list" where
  "get_discrete_state E a state =
     (if length state = length (observation_space_low E)
         \<and> length (grid_size a) = length (observation_space_low E)
      then if 0 \<in> set (grid_size a) then Inl FloatingPointError
           else Inr (map trunc (map2 (/) (map2 (-) state (observation_space_low E)) (grid_size a)))
      else Inl ValueError)"

text \<open>\<^verbatim>\<open>epsilon_greedy_selection(q_values, epsilon)\<close>.\<close>

definition q_max_actions :: "real list \<Rightarrow> nat list" where
  "q_max_actions q_values = filter (\<lambda>i. q_values ! i = Max (set q_values)) [0..<length q_values]"

definition epsilon_greedy_selection :: "real list \<Rightarrow> real \<Rightarrow> rng \<Rightarrow> py_error + nat \<times> rng" where
  "epsilon_greedy_selection q_values eps g =
     (let (u, g1) = np_random g
      in if u < eps then np_randint 0 (length q_values) g1
         else attempt (np_max q_values) (\<lambda>q_max.
              attempt (np_randint 0 (length (q_max_actions q_values)) g1) (\<lambda>(k, g2).
              Inr (q_max_actions q_values ! k, g2))))"


text \<open>The generic \<^verbatim>\<open>for episode in range(...)\<close> loop over a per-episode function.\<close>

fun for_each :: "(nat \<Rightarrow> 'a \<Rightarrow> (py_error + 'a) option) \<Rightarrow> nat list \<Rightarrow> 'a \<Rightarrow> (py_error + 'a) option" where
  "for_each f [] a = Some (Inr a)"
| "for_each f (x # xs) a = and_then (f x a) (for_each f xs)"

subsection \<open>The evaluation rollout \<^verbatim>\<open>act\<close>\<close>

text \<open>The loop state is \<^verbatim>\<open>(self, state, done)\<close>; \<^verbatim>\<open>while not done\<close> tests \<open>done\<close> before
  every iteration.\<close>

definition tabular_act_body ::
  "'e env_ops \<Rightarrow> 'e tabular_agent \<times> observation \<times> bool
     \<Rightarrow> py_error + ('e tabular_agent \<times> observation \<times> bool, 'e tabular_agent) flow" where
  "tabular_act_body E = (\<lambda>(a, state, done).
     if done then Inr (Break a)
     else
       attempt (get_discrete_state E a state) (\<lambda>discrete_state.
       attempt (q_row (q_table a) discrete_state) (\<lambda>q_values.
       attempt (epsilon_greedy_selection q_values 0 (np_rng a)) (\<lambda>(action, g').
       let ((state', reward, done'), e') = env_step E action (env a)
       in Inr (Continue (a\<lparr>env := env_render E e', np_rng := g'\<rparr>, state', done'))))))"

definition tabular_act :: "'e env_ops \<Rightarrow> 'e tabular_agent \<Rightarrow> (py_error + 'e tabular_agent) option" where
  "tabular_act E a =
     (let (state, e1) = env_reset E (env a)
      in and_then (while_true (tabular_act_body E) (a\<lparr>env := e1\<rparr>, state, False))
           (\<lambda>a'. Some (Inr (a'\<lparr>env := env_close E (env a')\<rparr>))))"

subsection \<open>SARSA\<close>

text \<open>The temporal-difference targets \<^verbatim>\<open>q_new\<close> of the two agents, and the update
  \<^verbatim>\<open>q_old = q_table[idx]; q_table[idx] = q_old + alpha * (q_new - q_old)\<close>.\<close>

definition sarsa_q_new :: "real \<Rightarrow> ndarray \<Rightarrow> pynum \<Rightarrow> bool \<Rightarrow> int list \<Rightarrow> nat \<Rightarrow> py_error + real" where
  "sarsa_q_new gam t reward done new_state new_action =
     (if done then Inr (as_float reward)
      else attempt (q_row t new_state) (\<lambda>row.
           attempt (row_get row new_action) (\<lambda>v. Inr (as_float reward + gam * v))))"

definition qlearning_q_new :: "real \<Rightarrow> ndarray \<Rightarrow> pynum \<Rightarrow> bool \<Rightarrow> int list \<Rightarrow> py_error + real" where
  "qlearning_q_new gam t reward done new_state =
     (if done then Inr (as_float reward)
      else attempt (q_row t new_state) (\<lambda>row.
           attempt (np_max row) (\<lambda>m. Inr (as_float reward + gam * m))))"

text \<open>
  The same two targets as float64 computes them: \<^verbatim>\<open>self.gamma * q\<close> is rounded, then its
  sum with the reward (a float, or a Python int that the addition converts) is rounded.
  The table and \<open>gamma\<close> hold float64 values; a terminal target is the reward itself.
\<close>

definition sarsa_q_new_f64 :: "real \<Rightarrow> ndarray \<Rightarrow> pynum \<Rightarrow> bool \<Rightarrow> int list \<Rightarrow> nat \<Rightarrow> py_error + real" where
  "sarsa_q_new_f64 gam t reward done new_state new_action =
     (if done then Inr (as_float reward)
      else attempt (q_row t new_state) (\<lambda>row.
           attempt (row_get row new_action) (\<lambda>v.
             Inr (f64_add (fl64 (as_float reward)) (f64_mul gam v)))))"

definition qlearning_q_new_f64 :: "real \<Rightarrow> ndarray \<Rightarrow> pynum \<Rightarrow> bool \<Rightarrow> int list \<Rightarrow> py_error + real" where
  "qlearning_q_new_f64 gam t reward done new_state =
     (if done then Inr (as_float reward)
      else attempt (q_row t new_state) (\<lambda>row.
           attempt (np_max row) (\<lambda>m.
             Inr (f64_add (fl64 (as_float reward)) (f64_mul gam m)))))"

definition td_update :: "ndarray \<Rightarrow> int list \<Rightarrow> real \<Rightarrow> real \<Rightarrow> py_error + ndarray" where
  "td_update t idx alph q_new =
     attempt (q_get t idx) (\<lambda>q_old. q_set t idx (q_old + alph * (q_new - q_old)))"

text \<open>One iteration of the \<^verbatim>\<open>while True\<close> loop of \<^verbatim>\<open>SarsaAgent.execute\<close>; the loop state is
  \<^verbatim>\<open>(self, state, action)\<close>.\<close>

definition sarsa_body ::
  "'e env_ops \<Rightarrow> 'e tabular_agent \<times> int list \<times> nat
     \<Rightarrow> py_error + ('e tabular_agent \<times> int list \<times> nat, 'e tabular_agent) flow" where
  "sarsa_body E = (\<lambda>(a, state, action).
     let ((new_obs, reward, done), e') = env_step E action (env a)
     in attempt (get_discrete_state E a new_obs) (\<lambda>new_state.
        attempt (q_row (q_table a) new_state) (\<lambda>row.
        attempt (epsilon_greedy_selection row (epsilon a) (np_rng a)) (\<lambda>(new_action, g').
        attempt (sarsa_q_new (gamma a) (q_table a) reward done new_state new_action) (\<lambda>q_new.
        attempt (td_update (q_table a) (state @ [int action]) (alpha a) q_new) (\<lambda>t'.
        attempt (stats_add_last (stats a) reward) (\<lambda>st'.
        let a' = a\<lparr>env := e', np_rng := g', q_table := t', stats := st'\<rparr>
        in Inr (if done then Break a' else Continue (a', new_state, new_action)))))))))"

definition sarsa_episode :: "'e env_ops \<Rightarrow> nat \<Rightarrow> 'e tabular_agent \<Rightarrow> (py_error + 'e tabular_agent) option" where
  "sarsa_episode E episode a =
     (let (obs, e1) = env_reset E (env a);
          a1 = a\<lparr>stats := stats_append (stats a) 0, env := e1\<rparr>
      in case get_discrete_state E a1 obs of Inl e \<Rightarrow> Some (Inl e) | Inr state \<Rightarrow>
         (case q_row (q_table a1) state of Inl e \<Rightarrow> Some (Inl e) | Inr row \<Rightarrow>
         (case epsilon_greedy_selection row (epsilon a1) (np_rng a1) of Inl e \<Rightarrow> Some (Inl e)
          | Inr (action, g') \<Rightarrow>
            and_then (while_true (sarsa_body E) (a1\<lparr>np_rng := g'\<rparr>, state, action)) (\<lambda>a2.
              if 0 < to_show a2 \<and> int episode mod to_show a2 = 0 then tabular_act E a2
              else Some (Inr a2)))))"

definition sarsa_execute :: "'e env_ops \<Rightarrow> 'e tabular_agent \<Rightarrow> (py_error + 'e tabular_agent) option" where
  "sarsa_execute E a = for_each (sarsa_episode E) [0..<num_episodes a] a"

subsection \<open>Q-learning\<close>

text \<open>One iteration of the \<^verbatim>\<open>while True\<close> loop of \<^verbatim>\<open>QLearningAgent.execute\<close>; the loop state
  is \<^verbatim>\<open>(self, state)\<close>.\<close>

definition qlearning_body ::
  "'e env_ops \<Rightarrow> 'e tabular_agent \<times> int list
     \<Rightarrow> py_error + ('e tabular_agent \<times> int list, 'e tabular_agent) flow" where
  "qlearning_body E = (\<lambda>(a, state).
     attempt (q_row (q_table a) state) (\<lambda>row.
     attempt (epsilon_greedy_selection row (epsilon a) (np_rng a)) (\<lambda>(action, g').
     let ((new_obs, reward, done), e') = env_step E action (env a)
     in attempt (get_discrete_state E a new_obs) (\<lambda>new_state.
        attempt (qlearning_q_new (gamma a) (q_table a) reward done new_state) (\<lambda>q_new.
        attempt (td_update (q_table a) (state @ [int action]) (alpha a) q_new) (\<lambda>t'.
        attempt (stats_add_last (stats a) reward) (\<lambda>st'.
        let a' = a\<lparr>env := e', np_rng := g', q_table := t', stats := st'\<rparr>
        in Inr (if done then Break a' else Continue (a', new_state)))))))))"

definition qlearning_episode :: "'e env_ops \<Rightarrow> nat \<Rightarrow> 'e tabular_agent \<Rightarrow> (py_error + 'e tabular_agent) option" where
  "qlearning_episode E episode a =
     (let (obs, e1) = env_reset E (env a);
          a1 = a\<lparr>stats := stats_append (stats a) 0, env := e1\<rparr>
      in case get_discrete_state E a1 obs of Inl e \<Rightarrow> Some (Inl e) | Inr state \<Rightarrow>
            and_then (while_true (qlearning_body E) (a1, state)) (\<lambda>a2.
              if 0 < to_show a2 \<and> int episode mod to_show a2 = 0 then tabular_act E a2
              else Some (Inr a2)))"

definition qlearning_execute :: "'e env_ops \<Rightarrow> 'e tabular_agent \<Rightarrow> (py_error + 'e tabular_agent) option" where
  "qlearning_execute E a = for_each (qlearning_episode E) [0..<num_episodes a] a"


section \<open>Neural networks and optimizers\<close>

text \<open>
  A network and its optimizer are external collaborators. \<open>'w\<close> is a set of weights and
  \<open>predict\<close> the forward pass (both \<^verbatim>\<open>model(x)\<close> and \<^verbatim>\<open>model.predict(x)\<close>) for one input row.
  \<open>apply_gradients loss opt w\<close> stands for \<^verbatim>\<open>tape.gradient(loss, variables)\<close> followed by
  \<^verbatim>\<open>optimizer.apply_gradients\<close>: one optimizer step on the weights \<open>w\<close> for the loss recorded
  on the tape, a function of the weights.
\<close>

record ('w, 'o) net_ops =
  predict :: "'w \<Rightarrow> observation \<Rightarrow> real list"
  apply_gradients :: "('w \<Rightarrow> real) \<Rightarrow> 'o \<Rightarrow> 'w \<Rightarrow> 'o \<times> 'w"

fun all_ok :: "(py_error + 'a) list \<Rightarrow> py_error + 'a list" where
  "all_ok [] = Inr []"
| "all_ok (r # rs) = attempt r (\<lambda>x. attempt (all_ok rs) (\<lambda>xs. Inr (x # xs)))"

definition row_set :: "real list \<Rightarrow> nat \<Rightarrow> real \<Rightarrow> py_error + real list" where
  "row_set row i v = (if i < length row then Inr (row[i := v]) else Inl IndexError)"

text \<open>\<^verbatim>\<open>np.argmax\<close>: the first index at which the maximum is attained.\<close>

definition np_argmax :: "real list \<Rightarrow> py_error + nat" where
  "np_argmax xs = (if xs = [] then Inl ValueError else Inr (hd (q_max_actions xs)))"

section \<open>DQN agent\<close>

type_synonym transition = "observation \<times> nat \<times> pynum \<times> observation \<times> bool"

text \<open>
  \<open>memory\<close> with \<open>memory_maxlen\<close> is the deque \<^verbatim>\<open>self.memory\<close>; \<open>py_rng\<close> is the generator of
  Python's \<^verbatim>\<open>random\<close> module, which \<^verbatim>\<open>random.sample\<close> draws from. The two networks are two
  values: the notebook builds them by two calls of \<^verbatim>\<open>build_model\<close>.
\<close>

record ('e, 'w, 'o) dqn_agent = "'e value_agent" +
  memory :: "transition list"
  memory_maxlen :: nat
  batch_size :: nat
  state_size :: nat
  action_size :: nat
  optimizer :: 'o
  model :: 'w
  target_model :: 'w
  target_update_counter :: nat
  target_update_frequency :: nat
  py_rng :: rng

definition dqn_init ::
  "'e env_ops \<Rightarrow> 'e \<Rightarrow> 'w \<Rightarrow> 'w \<Rightarrow> 'o \<Rightarrow> rng \<Rightarrow> rng \<Rightarrow> ('e, 'w, 'o) dqn_agent" where
  "dqn_init E e mdl tgt opt g pg =
     \<lparr>env = e, num_episodes = 1000, gamma = 99 / 100, stats = [], np_rng = g,
      epsilon = 1 / 10, verbose = 50, to_show = 200,
      memory = [], memory_maxlen = 10000, batch_size = 32,
      state_size = length (observation_space_low E), action_size = action_space_n E,
      optimizer = opt, model = mdl, target_model = mdl,
      target_update_counter = 0, target_update_frequency = 200, py_rng = pg\<rparr>"

text \<open>\<^verbatim>\<open>random.sample(population, k)\<close>: \<open>k\<close> items at distinct positions, each drawn from the
  positions not taken yet; ValueError when the sample is larger than the population.\<close>

fun sample_pool :: "'a list \<Rightarrow> nat \<Rightarrow> rng \<Rightarrow> 'a list \<times> rng" where
  "sample_pool pool 0 g = ([], g)"
| "sample_pool pool (Suc k) g =
     (let j = shd g mod length pool;
          (rest, g') = sample_pool (butlast (pool[j := last pool])) k (stl g)
      in (pool ! j # rest, g'))"

definition random_sample :: "'a list \<Rightarrow> nat \<Rightarrow> rng \<Rightarrow> py_error + 'a list \<times> rng" where
  "random_sample population k g =
     (if length population < k then Inl ValueError else Inr (sample_pool population k g))"

text \<open>\<^verbatim>\<open>select_action(state, epsilon)\<close>.\<close>

definition dqn_select_action ::
  "('w, 'o) net_ops \<Rightarrow> ('e, 'w, 'o) dqn_agent \<Rightarrow> observation \<Rightarrow> real \<Rightarrow> py_error + nat \<times> rng" where
  "dqn_select_action N a state eps =
     (let (u, g1) = np_random (np_rng a)
      in if u < eps then np_randint 0 (dqn_agent.action_size a) g1
         else attempt (np_argmax (predict N (dqn_agent.model a) state)) (\<lambda>action. Inr (action, g1)))"

text \<open>
  \<^verbatim>\<open>train\<close>. \<open>q_target\<close> is one entry of
  \<^verbatim>\<open>rewards + self.gamma * (1 - done) * np.amax(q_new, axis=1)\<close>; \<open>dqn_targets\<close> is the array
  \<^verbatim>\<open>q_values\<close> after \<^verbatim>\<open>q_values[range(len(actions)), actions] = q_target\<close>; \<open>dqn_loss\<close> is
  \<^verbatim>\<open>1./self.batch_size * tf.reduce_sum((target - predicted)**2)\<close> as a function of the
  online network's weights, \<open>target\<close> being a constant on the tape.
\<close>

definition q_target :: "real \<Rightarrow> pynum \<Rightarrow> bool \<Rightarrow> real list \<Rightarrow> py_error + real" where
  "q_target gam reward done q_new_row =
     attempt (np_max q_new_row) (\<lambda>m. Inr (as_float reward + gam * (1 - (if done then 1 else 0)) * m))"

definition dqn_target_row ::
  "('w, 'o) net_ops \<Rightarrow> ('e, 'w, 'o) dqn_agent \<Rightarrow> transition \<Rightarrow> py_error + real list" where
  "dqn_target_row N a = (\<lambda>(state, action, reward, next_state, done).
     attempt (q_target (gamma a) reward done (predict N (dqn_agent.target_model a) next_state))
       (\<lambda>y. row_set (predict N (dqn_agent.model a) state) action y))"

definition dqn_targets ::
  "('w, 'o) net_ops \<Rightarrow> ('e, 'w, 'o) dqn_agent \<Rightarrow> transition list \<Rightarrow> py_error + real list list" where
  "dqn_targets N a minibatch = all_ok (map (dqn_target_row N a) minibatch)"

definition squared_error :: "real list \<Rightarrow> real list \<Rightarrow> real" where
  "squared_error target predicted = sum_list (map2 (\<lambda>t p. (t - p)\<^sup>2) target predicted)"

definition dqn_loss ::
  "('w, 'o) net_ops \<Rightarrow> nat \<Rightarrow> observation list \<Rightarrow> real list list \<Rightarrow> 'w \<Rightarrow> real" where
  "dqn_loss N bs states target w =
     1 / real bs * sum_list (map2 (\<lambda>s t. squared_error t (predict N w s)) states target)"

definition dqn_train ::
  "('w, 'o) net_ops \<Rightarrow> ('e, 'w, 'o) dqn_agent \<Rightarrow> py_error + ('e, 'w, 'o) dqn_agent" where
  "dqn_train N a =
     (if length (memory a) < batch_size a then Inr a
      else
        attempt (random_sample (memory a) (batch_size a) (py_rng a)) (\<lambda>(minibatch, pg').
        attempt (dqn_targets N a minibatch) (\<lambda>target.
        let states = map fst minibatch;
            (opt', w') = apply_gradients N (dqn_loss N (batch_size a) states target)
                           (dqn_agent.optimizer a) (dqn_agent.model a)
        in Inr (a\<lparr>py_rng := pg', dqn_agent.optimizer := opt', dqn_agent.model := w'\<rparr>))))"

text \<open>\<^verbatim>\<open>act\<close>: the loop state is \<^verbatim>\<open>(self, state, done, total_reward)\<close>.\<close>

definition dqn_act_body ::
  "'e env_ops \<Rightarrow> ('w, 'o) net_ops \<Rightarrow> ('e, 'w, 'o) dqn_agent \<times> observation \<times> bool \<times> real
     \<Rightarrow> py_error + (('e, 'w, 'o) dqn_agent \<times> observation \<times> bool \<times> real,
                     ('e, 'w, 'o) dqn_agent \<times> real) flow" where
  "dqn_act_body E N = (\<lambda>(a, state, done, total_reward).
     if done then Inr (Break (a, total_reward))
     else
       attempt (dqn_select_action N a state 0) (\<lambda>(action, g').
       let ((state', reward, done'), e') = env_step E action (env a)
       in Inr (Continue (a\<lparr>env := env_render E e', np_rng := g'\<rparr>, state', done',
                         total_reward + as_float reward))))"

definition dqn_act ::
  "'e env_ops \<Rightarrow> ('w, 'o) net_ops \<Rightarrow> ('e, 'w, 'o) dqn_agent
     \<Rightarrow> (py_error + ('e, 'w, 'o) dqn_agent \<times> real) option" where
  "dqn_act E N a =
     (let (state, e1) = env_reset E (env a)
      in and_then (while_true (dqn_act_body E N) (a\<lparr>env := e1\<rparr>, state, False, 0))
           (\<lambda>(a', total_reward). Some (Inr (a'\<lparr>env := env_close E (env a')\<rparr>, total_reward))))"

text \<open>One iteration of the \<^verbatim>\<open>while True\<close> loop of \<^verbatim>\<open>DQNAgent.execute\<close>; the loop state is
  \<^verbatim>\<open>(self, state)\<close>.\<close>

definition sync_target :: "('e, 'w, 'o) dqn_agent \<Rightarrow> ('e, 'w, 'o) dqn_agent" where
  "sync_target a =
     (let a1 = a\<lparr>target_update_counter := target_update_counter a + 1\<rparr>
      in if target_update_counter a1 = target_update_frequency a1
         then a1\<lparr>target_update_counter := 0, target_model := dqn_agent.model a1\<rparr>
         else a1)"

definition dqn_body ::
  "'e env_ops \<Rightarrow> ('w, 'o) net_ops \<Rightarrow> ('e, 'w, 'o) dqn_agent \<times> observation
     \<Rightarrow> py_error + (('e, 'w, 'o) dqn_agent \<times> observation, ('e, 'w, 'o) dqn_agent) flow" where
  "dqn_body E N = (\<lambda>(a, state).
     attempt (dqn_select_action N a state (epsilon a)) (\<lambda>(action, g').
     let ((new_state, reward, done), e') = env_step E action (env a);
         a1 = a\<lparr>env := e', np_rng := g',
                memory := deque_append (memory_maxlen a) (memory a)
                            (state, action, reward, new_state, done)\<rparr>
     in attempt (dqn_train N a1) (\<lambda>a2.
        let a3 = sync_target a2
        in attempt (stats_add_last (stats a3) reward) (\<lambda>st'.
           let a4 = a3\<lparr>stats := st'\<rparr>
           in Inr (if done then Break a4 else Continue (a4, new_state))))))"

definition dqn_episode ::
  "'e env_ops \<Rightarrow> ('w, 'o) net_ops \<Rightarrow> nat \<Rightarrow> ('e, 'w, 'o) dqn_agent
     \<Rightarrow> (py_error + ('e, 'w, 'o) dqn_agent) option" where
  "dqn_episode E N episode a =
     (let (state, e1) = env_reset E (env a);
          a1 = a\<lparr>stats := stats_append (stats a) 0, env := e1\<rparr>
      in and_then (while_true (dqn_body E N) (a1, state)) (\<lambda>a2.
           if 0 < to_show a2 \<and> int episode mod to_show a2 = 0
           then and_then (dqn_act E N a2) (\<lambda>(a3, total_reward). Some (Inr a3))
           else Some (Inr a2)))"

definition dqn_execute ::
  "'e env_ops \<Rightarrow> ('w, 'o) net_ops \<Rightarrow> ('e, 'w, 'o) dqn_agent \<Rightarrow> (py_error + ('e, 'w, 'o) dqn_agent) option" where
  "dqn_execute E N a = for_each (dqn_episode E N) [1..<num_episodes a + 1] a"


section \<open>Policy-gradient agents\<close>

text \<open>
  \<^verbatim>\<open>np.random.choice(range(n), 1, p=probabilities)[0]\<close>: ValueError unless \<open>p\<close> is a
  probability vector of length \<open>n\<close>; otherwise the index at which the running sum of \<open>p\<close>
  first exceeds a uniform draw. (numpy accepts a sum within a small tolerance of 1; with
  exact reals the sum is required to be 1.)
\<close>

fun cumsum_from :: "real \<Rightarrow> real list \<Rightarrow> real list" where
  "cumsum_from acc [] = []"
| "cumsum_from acc (x # xs) = (acc + x) # cumsum_from (acc + x) xs"

definition np_choice :: "nat \<Rightarrow> real list \<Rightarrow> rng \<Rightarrow> py_error + nat \<times> rng" where
  "np_choice n p g =
     (if n = 0 \<or> length p \<noteq> n \<or> list_ex (\<lambda>x. x < 0) p \<or> sum_list p \<noteq> 1 then Inl ValueError
      else let (u, g1) = np_random g
           in Inr (length (takeWhile (\<lambda>c. c \<le> u) (cumsum_from 0 p)), g1))"

text \<open>\<^verbatim>\<open>one_hot = [0] * n; one_hot[action] = 1\<close>.\<close>

definition one_hot :: "nat \<Rightarrow> nat \<Rightarrow> py_error + real list" where
  "one_hot n action = row_set (replicate n 0) action 1"

record 'e policy_agent = "'e agent" +
  state_size :: nat
  action_size :: nat
  show_stats :: int
  show_episode :: int

subsection \<open>PGAgent (REINFORCE)\<close>

record ('e, 'w, 'o) pg_agent = "'e policy_agent" +
  model :: 'w
  optimizer :: 'o
  memory_states :: "observation list"
  memory_actions :: "real list list"
  memory_rewards :: "pynum list"

definition pg_init :: "'e env_ops \<Rightarrow> 'e \<Rightarrow> 'w \<Rightarrow> 'o \<Rightarrow> rng \<Rightarrow> ('e, 'w, 'o) pg_agent" where
  "pg_init E e mdl opt g =
     \<lparr>env = e, num_episodes = 1000, gamma = 99 / 100, stats = [], np_rng = g,
      state_size = length (observation_space_low E), action_size = action_space_n E,
      show_stats = 200, show_episode = - 1,
      model = mdl, optimizer = opt,
      memory_states = [], memory_actions = [], memory_rewards = []\<rparr>"

definition pg_select_action ::
  "('w, 'o) net_ops \<Rightarrow> ('e, 'w, 'o) pg_agent \<Rightarrow> observation \<Rightarrow> py_error + nat \<times> rng" where
  "pg_select_action N a state =
     np_choice (policy_agent.action_size a) (predict N (pg_agent.model a) state) (np_rng a)"

definition pg_act_body ::
  "'e env_ops \<Rightarrow> ('w, 'o) net_ops \<Rightarrow> ('e, 'w, 'o) pg_agent \<times> observation \<times> bool \<times> real
     \<Rightarrow> py_error + (('e, 'w, 'o) pg_agent \<times> observation \<times> bool \<times> real,
                     ('e, 'w, 'o) pg_agent \<times> real) flow" where
  "pg_act_body E N = (\<lambda>(a, state, done, total_reward).
     if done then Inr (Break (a, total_reward))
     else
       attempt (pg_select_action N a state) (\<lambda>(action, g').
       let ((state', reward, done'), e') = env_step E action (env a)
       in Inr (Continue (a\<lparr>env := env_render E e', np_rng := g'\<rparr>, state', done',
                         total_reward + as_float reward))))"

definition pg_act ::
  "'e env_ops \<Rightarrow> ('w, 'o) net_ops \<Rightarrow> ('e, 'w, 'o) pg_agent
     \<Rightarrow> (py_error + ('e, 'w, 'o) pg_agent \<times> real) option" where
  "pg_act E N a =
     (let (state, e1) = env_reset E (env a)
      in and_then (while_true (pg_act_body E N) (a\<lparr>env := e1\<rparr>, state, False, 0))
           (\<lambda>(a', total_reward). Some (Inr (a'\<lparr>env := env_close E (env a')\<rparr>, total_reward))))"

text \<open>\<^verbatim>\<open>train\<close>: the loss \<^verbatim>\<open>- tf.reduce_sum(log_prob * returns)\<close> over the episode in memory,
  with \<^verbatim>\<open>returns = calc_returns(self.memory_rewards)\<close> converted to a float tensor.\<close>

definition pg_loss ::
  "('w, 'o) net_ops \<Rightarrow> observation list \<Rightarrow> real list list \<Rightarrow> real list \<Rightarrow> 'w \<Rightarrow> real" where
  "pg_loss N states actions returns w =
     - sum_list (map2 (\<lambda>(s, act) G. ln (sum_list (map2 (*) act (predict N w s))) * G)
                   (zip states actions) returns)"

definition pg_train :: "('w, 'o) net_ops \<Rightarrow> ('e, 'w, 'o) pg_agent \<Rightarrow> ('e, 'w, 'o) pg_agent" where
  "pg_train N a =
     (let returns = map as_float (calc_returns (gamma a) (memory_rewards a));
          (opt', w') = apply_gradients N (pg_loss N (memory_states a) (memory_actions a) returns)
                         (pg_agent.optimizer a) (pg_agent.model a)
      in a\<lparr>pg_agent.optimizer := opt', pg_agent.model := w'\<rparr>)"

text \<open>One iteration of the \<^verbatim>\<open>while True\<close> loop of \<^verbatim>\<open>PGAgent.execute\<close>, and one episode.\<close>

definition pg_body ::
  "'e env_ops \<Rightarrow> ('w, 'o) net_ops \<Rightarrow> ('e, 'w, 'o) pg_agent \<times> observation
     \<Rightarrow> py_error + (('e, 'w, 'o) pg_agent \<times> observation, ('e, 'w, 'o) pg_agent) flow" where
  "pg_body E N = (\<lambda>(a, state).
     attempt (pg_select_action N a state) (\<lambda>(action, g').
     let ((new_state, reward, done), e') = env_step E action (env a)
     in attempt (one_hot (policy_agent.action_size a) action) (\<lambda>actions_one_hot.
        let a' = a\<lparr>env := e', np_rng := g',
                   memory_states := memory_states a @ [state],
                   memory_actions := memory_actions a @ [actions_one_hot],
                   memory_rewards := memory_rewards a @ [reward]\<rparr>
        in Inr (if done then Break a' else Continue (a', new_state)))))"

definition pg_episode ::
  "'e env_ops \<Rightarrow> ('w, 'o) net_ops \<Rightarrow> nat \<Rightarrow> ('e, 'w, 'o) pg_agent
     \<Rightarrow> (py_error + ('e, 'w, 'o) pg_agent) option" where
  "pg_episode E N episode a =
     (let (state, e1) = env_reset E (env a)
      in and_then (while_true (pg_body E N) (a\<lparr>env := e1\<rparr>, state)) (\<lambda>a1.
           let a2 = a1\<lparr>stats := stats_append (stats a1) (sum_list (map as_float (memory_rewards a1)))\<rparr>;
               a3 = (pg_train N a2)\<lparr>memory_states := [], memory_actions := [], memory_rewards := []\<rparr>
           in if 0 < show_episode a3 \<and> int episode mod show_episode a3 = 0
              then and_then (pg_act E N a3) (\<lambda>(a4, total_reward). Some (Inr a4))
              else Some (Inr a3)))"

definition pg_execute ::
  "'e env_ops \<Rightarrow> ('w, 'o) net_ops \<Rightarrow> ('e, 'w, 'o) pg_agent \<Rightarrow> (py_error + ('e, 'w, 'o) pg_agent) option" where
  "pg_execute E N a = for_each (pg_episode E N) [1..<num_episodes a + 1] a"

subsection \<open>ACAgent (one-step actor-critic)\<close>

record ('e, 'wa, 'oa, 'wc, 'oc) ac_agent = "'e policy_agent" +
  actor_model :: 'wa
  actor_optimizer :: 'oa
  critic_model :: 'wc
  critic_optimizer :: 'oc
  I :: real

definition ac_init ::
  "'e env_ops \<Rightarrow> 'e \<Rightarrow> 'wa \<Rightarrow> 'oa \<Rightarrow> 'wc \<Rightarrow> 'oc \<Rightarrow> rng \<Rightarrow> ('e, 'wa, 'oa, 'wc, 'oc) ac_agent" where
  "ac_init E e am ao cm co g =
     \<lparr>env = e, num_episodes = 1000, gamma = 9 / 10, stats = [], np_rng = g,
      state_size = length (observation_space_low E), action_size = action_space_n E,
      show_stats = 200, show_episode = - 1,
      actor_model = am, actor_optimizer = ao, critic_model = cm, critic_optimizer = co,
      I = 1\<rparr>"

definition ac_select_action ::
  "('wa, 'oa) net_ops \<Rightarrow> ('e, 'wa, 'oa, 'wc, 'oc) ac_agent \<Rightarrow> observation \<Rightarrow> py_error + nat \<times> rng" where
  "ac_select_action NA a state =
     np_choice (policy_agent.action_size a) (predict NA (actor_model a) state) (np_rng a)"

text \<open>
  \<^verbatim>\<open>train(state_, action_one_hot, new_state_, reward, done)\<close>. \<open>delta\<close> is a number taken off
  the tape (\<^verbatim>\<open>value.numpy()\<close>), so both losses are functions of the weights with \<open>delta\<close> and
  \<^verbatim>\<open>self.I\<close> as constants. The critic has one output, read as \<^verbatim>\<open>[0][0]\<close>.
\<close>

definition ac_critic_loss :: "('wc, 'oc) net_ops \<Rightarrow> observation \<Rightarrow> real \<Rightarrow> 'wc \<Rightarrow> real" where
  "ac_critic_loss NC state delta w = - delta * (predict NC w state ! 0)"

definition ac_actor_loss ::
  "('wa, 'oa) net_ops \<Rightarrow> observation \<Rightarrow> real list \<Rightarrow> real \<Rightarrow> real \<Rightarrow> 'wa \<Rightarrow> real" where
  "ac_actor_loss NA state action_one_hot delta i w =
     - ln (sum_list (map2 (*) action_one_hot (predict NA w state))) * delta * i"

definition ac_train ::
  "('wa, 'oa) net_ops \<Rightarrow> ('wc, 'oc) net_ops \<Rightarrow> ('e, 'wa, 'oa, 'wc, 'oc) ac_agent
     \<Rightarrow> observation \<Rightarrow> real list \<Rightarrow> observation \<Rightarrow> pynum \<Rightarrow> bool
     \<Rightarrow> py_error + ('e, 'wa, 'oa, 'wc, 'oc) ac_agent" where
  "ac_train NA NC a state action_one_hot new_state reward done =
     attempt (row_get (predict NC (critic_model a) new_state) 0) (\<lambda>v_new.
     let new_value = as_float reward + (1 - (if done then 1 else 0)) * gamma a * v_new
     in attempt (row_get (predict NC (critic_model a) state) 0) (\<lambda>value.
        let delta = new_value - value;
            (co', cw') = apply_gradients NC (ac_critic_loss NC state delta)
                           (critic_optimizer a) (critic_model a);
            (ao', aw') = apply_gradients NA (ac_actor_loss NA state action_one_hot delta (I a))
                           (actor_optimizer a) (actor_model a)
        in Inr (a\<lparr>critic_optimizer := co', critic_model := cw',
                   actor_optimizer := ao', actor_model := aw'\<rparr>)))"

definition ac_act_body ::
  "'e env_ops \<Rightarrow> ('wa, 'oa) net_ops \<Rightarrow> ('e, 'wa, 'oa, 'wc, 'oc) ac_agent \<times> observation \<times> bool \<times> real
     \<Rightarrow> py_error + (('e, 'wa, 'oa, 'wc, 'oc) ac_agent \<times> observation \<times> bool \<times> real,
                     ('e, 'wa, 'oa, 'wc, 'oc) ac_agent \<times> real) flow" where
  "ac_act_body E NA = (\<lambda>(a, state, done, total_reward).
     if done then Inr (Break (a, total_reward))
     else
       attempt (ac_select_action NA a state) (\<lambda>(action, g').
       let ((state', reward, done'), e') = env_step E action (env a)
       in Inr (Continue (a\<lparr>env := env_render E e', np_rng := g'\<rparr>, state', done',
                         total_reward + as_float reward))))"

definition ac_act ::
  "'e env_ops \<Rightarrow> ('wa, 'oa) net_ops \<Rightarrow> ('e, 'wa, 'oa, 'wc, 'oc) ac_agent
     \<Rightarrow> (py_error + ('e, 'wa, 'oa, 'wc, 'oc) ac_agent \<times> real) option" where
  "ac_act E NA a =
     (let (state, e1) = env_reset E (env a)
      in and_then (while_true (ac_act_body E NA) (a\<lparr>env := e1\<rparr>, state, False, 0))
           (\<lambda>(a', total_reward). Some (Inr (a'\<lparr>env := env_close E (env a')\<rparr>, total_reward))))"

text \<open>One iteration of the \<^verbatim>\<open>while True\<close> loop of \<^verbatim>\<open>ACAgent.execute\<close>; the loop state is
  \<^verbatim>\<open>(self, state)\<close>. \<open>ac_episode_start\<close> is the part of an episode before the loop.\<close>

definition ac_body ::
  "'e env_ops \<Rightarrow> ('wa, 'oa) net_ops \<Rightarrow> ('wc, 'oc) net_ops
     \<Rightarrow> ('e, 'wa, 'oa, 'wc, 'oc) ac_agent \<times> observation
     \<Rightarrow> py_error + (('e, 'wa, 'oa, 'wc, 'oc) ac_agent \<times> observation,
                     ('e, 'wa, 'oa, 'wc, 'oc) ac_agent) flow" where
  "ac_body E NA NC = (\<lambda>(a, state).
     attempt (ac_select_action NA a state) (\<lambda>(action, g').
     let ((new_state, reward, done), e') = env_step E action (env a)
     in attempt (one_hot (policy_agent.action_size a) action) (\<lambda>action_one_hot.
        attempt (ac_train NA NC (a\<lparr>env := e', np_rng := g'\<rparr>) state action_one_hot
                   new_state reward done) (\<lambda>a1.
        attempt (stats_add_last (stats a1) reward) (\<lambda>st'.
        let a2 = a1\<lparr>stats := st'\<rparr>
        in Inr (if done then Break a2
                else Continue (a2\<lparr>I := I a2 * gamma a2\<rparr>, new_state)))))))"

definition ac_episode_start ::
  "'e env_ops \<Rightarrow> ('e, 'wa, 'oa, 'wc, 'oc) ac_agent
     \<Rightarrow> ('e, 'wa, 'oa, 'wc, 'oc) ac_agent \<times> observation" where
  "ac_episode_start E a =
     (let (state, e1) = env_reset E (env a)
      in (a\<lparr>stats := stats_append (stats a) 0, env := e1, I := 1\<rparr>, state))"

definition ac_episode ::
  "'e env_ops \<Rightarrow> ('wa, 'oa) net_ops \<Rightarrow> ('wc, 'oc) net_ops \<Rightarrow> nat
     \<Rightarrow> ('e, 'wa, 'oa, 'wc, 'oc) ac_agent
     \<Rightarrow> (py_error + ('e, 'wa, 'oa, 'wc, 'oc) ac_agent) option" where
  "ac_episode E NA NC episode a =
     and_then (while_true (ac_body E NA NC) (ac_episode_start E a)) (\<lambda>a1.
       if 0 < show_episode a1 \<and> int episode mod show_episode a1 = 0
       then and_then (ac_act E NA a1) (\<lambda>(a2, total_reward). Some (Inr a2))
       else Some (Inr a1))"

definition ac_execute ::
  "'e env_ops \<Rightarrow> ('wa, 'oa) net_ops \<Rightarrow> ('wc, 'oc) net_ops
     \<Rightarrow> ('e, 'wa, 'oa, 'wc, 'oc) ac_agent
     \<Rightarrow> (py_error + ('e, 'wa, 'oa, 'wc, 'oc) ac_agent) option" where
  "ac_execute E NA NC a = for_each (ac_episode E NA NC) [1..<num_episodes a + 1] a"


section \<open>Runs of the DQN agent\<close>

text \<open>
  What \<^verbatim>\<open>DQNAgent.execute\<close> does to the agent is a sequence of three kinds of steps: the start
  of an episode, one iteration of the inner loop, and a rollout by \<^verbatim>\<open>act\<close>.
  \<open>dqn_run E N a ts a'\<close>: some such sequence leads from \<open>a\<close> to \<open>a'\<close>, and \<open>ts\<close> are the
  transitions its loop iterations appended to the memory, in order.
\<close>

definition flow_agent :: "('a \<times> 's, 'a) flow \<Rightarrow> 'a" where
  "flow_agent r = (case r of Continue (a, s) \<Rightarrow> a | Break a \<Rightarrow> a)"

inductive dqn_run ::
  "'e env_ops \<Rightarrow> ('w, 'o) net_ops \<Rightarrow> ('e, 'w, 'o) dqn_agent \<Rightarrow> transition list
     \<Rightarrow> ('e, 'w, 'o) dqn_agent \<Rightarrow> bool"
  for E N a where
  start: "dqn_run E N a [] a"
| episode_start:
    "dqn_run E N a ts a1 \<Longrightarrow> env_reset E (env a1) = (state, e1)
     \<Longrightarrow> dqn_run E N a ts (a1\<lparr>stats := stats_append (stats a1) 0, env := e1\<rparr>)"
| loop_body:
    "dqn_run E N a ts a1 \<Longrightarrow> dqn_select_action N a1 state (epsilon a1) = Inr (action, g')
     \<Longrightarrow> env_step E action (env a1) = ((new_state, reward, is_done), e')
     \<Longrightarrow> dqn_body E N (a1, state) = Inr r
     \<Longrightarrow> dqn_run E N a (ts @ [(state, action, reward, new_state, is_done)]) (flow_agent r)"
| rollout:
    "dqn_run E N a ts a1 \<Longrightarrow> dqn_act E N a1 = Some (Inr (a2, total_reward))
     \<Longrightarrow> dqn_run E N a ts a2"

section \<open>Small concrete collaborators\<close>

text \<open>
  An environment with one observation component in \<open>[0, 1]\<close> and two actions, whose
  episodes end at the second step; a value network that rates all actions alike; a policy
  network with a uniform policy; a critic. Each optimizer step adds 1 to the weight.
\<close>

definition toy_env :: "nat env_ops" where
  "toy_env = \<lparr>env_reset = (\<lambda>e. ([0], 0)),
              env_step = (\<lambda>action e. (([1 / 2], PyFloat 1, 1 \<le> e), e + 1)),
              env_render = (\<lambda>e. e), env_close = (\<lambda>e. e),
              observation_space_low = [0], observation_space_high = [1],
              action_space_n = 2\<rparr>"

definition toy_net :: "(real, nat) net_ops" where
  "toy_net = \<lparr>predict = (\<lambda>w s. [w, w]), apply_gradients = (\<lambda>loss opt w. (opt + 1, w + 1))\<rparr>"

definition toy_policy :: "(real, nat) net_ops" where
  "toy_policy = \<lparr>predict = (\<lambda>w s. [1 / 2, 1 / 2]), apply_gradients = (\<lambda>loss opt w. (opt + 1, w + 1))\<rparr>"

definition toy_critic :: "(real, nat) net_ops" where
  "toy_critic = \<lparr>predict = (\<lambda>w s. [w]), apply_gradients = (\<lambda>loss opt w. (opt + 1, w + 1))\<rparr>"

text \<open>A DQN agent with a memory of one transition, minibatches of one and a target
  synchronization every second step.\<close>

definition toy_dqn :: "(nat, real, nat) dqn_agent" where
  "toy_dqn = (dqn_init toy_env 0 0 0 0 (sconst 0) (sconst 0))
               \<lparr>memory_maxlen := 1, batch_size := 1, target_update_frequency := 2\<rparr>"

text \<open>A tabular agent over two grid cells, inside its first episode, whose table holds 1
  for state 0 and action 1 and 0 everywhere else.\<close>

definition toy_tabular :: "nat tabular_agent" where
  "toy_tabular = (projr (tabular_init toy_env 0 [2] (sconst 0)))
                   \<lparr>stats := [0], q_table := \<lparr>shape = [2, 2], cells = (\<lambda>_. 0)([0, 1] := 1)\<rparr>\<rparr>"

text \<open>
  The same agent with \<open>gamma\<close> the float64 that the literal \<^verbatim>\<open>0.99\<close> denotes, for the float64
  targets. And one whose table holds, for state 0, the float64 values
  \<^verbatim>\<open>-99.99999999997789\<close> and \<^verbatim>\<open>-99.99999999997787\<close>, close to \<open>-1 / (1 - gamma) = -100\<close>, which
  every entry approaches when each step is rewarded \<open>-1\<close>.
\<close>

definition toy_tabular_f64 :: "nat tabular_agent" where
  "toy_tabular_f64 = toy_tabular\<lparr>gamma := fl64 (99 / 100)\<rparr>"

definition near_tie_tabular :: "nat tabular_agent" where
  "near_tie_tabular =
     toy_tabular_f64\<lparr>q_table := \<lparr>shape = [2, 2],
        cells = (\<lambda>_. 0)([0, 0] := fl64 (- 9999999999997789 / 100000000000000),
                         [0, 1] := fl64 (- 9999999999997787 / 100000000000000))\<rparr>\<rparr>"

text \<open>An actor-critic agent as \<^verbatim>\<open>__init__\<close> leaves it.\<close>

definition toy_ac :: "(nat, real, nat, real, nat) ac_agent" where
  "toy_ac = ac_init toy_env 0 0 0 0 0 (sconst 0)"

text \<open>A REINFORCE agent as \<^verbatim>\<open>__init__\<close> leaves it.\<close>

definition toy_pg :: "(nat, real, nat) pg_agent" where
  "toy_pg = pg_init toy_env 0 0 0 (sconst 0)"

section \<open>Properties\<close>

subsection \<open>Loops and sequencing\<close>

lemma while_true_rule:
  fixes body :: "'s \<Rightarrow> py_error + ('s, 'r) flow"
  assumes run: "while_true body s = Some (Inr r)"
    and init: "P s"
    and step: "\<And>s s'. P s \<Longrightarrow> body s = Inr (Continue s') \<Longrightarrow> P s'"
    and exit: "\<And>s r. P s \<Longrightarrow> body s = Inr (Break r) \<Longrightarrow> Q r"
  shows "Q r"
proof -
  have "while_true b s0 = Some y \<Longrightarrow> b = body \<longrightarrow> P s0 \<longrightarrow> (\<forall>r'. y = Inr r' \<longrightarrow> Q r')" for b s0 y
  proof (erule while_true.raw_induct[rotated], intro impI allI)
    fix w :: "('s \<Rightarrow> py_error + ('s, 'r) flow) \<Rightarrow> 's \<Rightarrow> (py_error + 'r) option"
    fix b s y r'
    assume IH: "\<And>b' s' y'. w b' s' = Some y' \<Longrightarrow>
                  b' = body \<longrightarrow> P s' \<longrightarrow> (\<forall>r'. y' = Inr r' \<longrightarrow> Q r')"
      and eq: "(case b s of Inl e \<Rightarrow> Some (Inl e)
                | Inr (Continue s') \<Rightarrow> w b s'
                | Inr (Break r) \<Rightarrow> Some (Inr r)) = Some y"
      and b: "b = body" and P: "P s" and y: "y = Inr r'"
    show "Q r'"
    proof (cases "body s")
      case (Inl e)
      with eq b y show ?thesis by simp
    next
      case (Inr f)
      show ?thesis
      proof (cases f)
        case (Continue s')
        with Inr eq b have "w body s' = Some y" by simp
        from IH[OF this] step[OF P] Inr Continue y show ?thesis by simp
      next
        case (Break r'')
        with Inr eq b y have "r'' = r'" by simp
        with exit[OF P] Inr Break show ?thesis by simp
      qed
    qed
  qed
  with run init show ?thesis by blast
qed

lemma while_true_iterations:
  "iterations body k s = Some s' \<Longrightarrow> while_true body s = while_true body s'"
proof (induction k arbitrary: s)
  case 0
  then show ?case by simp
next
  case (Suc k)
  then show ?case
    by (subst while_true.simps) (auto split: sum.splits flow.splits)
qed

lemma attempt_Inr_iff: "attempt m f = Inr y \<longleftrightarrow> (\<exists>x. m = Inr x \<and> f x = Inr y)"
  by (cases m) auto

lemma and_then_Some_Inr_iff:
  "and_then m f = Some (Inr y) \<longleftrightarrow> (\<exists>x. m = Some (Inr x) \<and> f x = Some (Inr y))"
proof (cases m)
  case None
  then show ?thesis by simp
next
  case (Some v)
  then show ?thesis by (cases v) auto
qed


subsection \<open>Replay memory: a sliding window\<close>

lemma deque_append_length: "length d \<le> m \<Longrightarrow> length (deque_append m d x) \<le> m"
  by (auto simp: deque_append_def Let_def)

lemma deque_append_window:
  "deque_append m (drop (length ys - m) ys) x = drop (length (ys @ [x]) - m) (ys @ [x])"
proof (cases "length ys < m")
  case True
  then show ?thesis by (simp add: deque_append_def Let_def)
next
  case False
  define k where "k = length ys - m"
  have k: "k \<le> length ys" "length ys - k = m" using False by (auto simp: k_def)
  have 1: "length (ys @ [x]) - m = Suc k" using False by (simp add: k_def)
  have 2: "drop k (ys @ [x]) = drop k ys @ [x]" using k by simp
  have 3: "drop (Suc k) (ys @ [x]) = tl (drop k (ys @ [x]))"
    by (simp only: drop_Suc tl_drop)
  have 4: "length (drop k ys @ [x]) > m" using k by simp
  have "deque_append m (drop k ys) x = tl (drop k ys @ [x])"
    unfolding deque_append_def Let_def using 4 by (simp only: if_True)
  then show ?thesis unfolding 1 3 2 k_def[symmetric] .
qed

subsection \<open>Discounted returns\<close>

lemma calc_returns_step_props:
  "length (snd (foldr (calc_returns_step gam dt) rs (0, []))) = length rs"
  "dt = Float64 \<Longrightarrow> fst (foldr (calc_returns_step gam dt) rs (0, [])) =
     (case snd (foldr (calc_returns_step gam dt) rs (0, [])) of [] \<Rightarrow> 0 | x # _ \<Rightarrow> as_float x)"
  by (induction rs) (auto simp: calc_returns_step_def Let_def)

lemma calc_returns_step_sel:
  "fst (calc_returns_step gam dt r st) = as_float r + gam * fst st"
  "snd (calc_returns_step gam dt r st) = store dt (as_float r + gam * fst st) # snd st"
  by (simp_all add: calc_returns_step_def Let_def)

lemma calc_returns_length: "length (calc_returns gam rewards) = length rewards"
  by (simp add: calc_returns_def calc_returns_step_props(1))

lemma calc_returns_float_nth:
  "t < length rs \<Longrightarrow>
   snd (foldr (calc_returns_step gam Float64) rs (0, [])) ! t =
     PyFloat (as_float (rs ! t) + gam *
       (if Suc t < length rs
        then as_float (snd (foldr (calc_returns_step gam Float64) rs (0, [])) ! Suc t) else 0))"
proof (induction rs arbitrary: t)
  case Nil
  then show ?case by simp
next
  case (Cons r rs)
  let ?F = "snd (foldr (calc_returns_step gam Float64) rs (0, []))"
  have len: "length ?F = length rs" by (rule calc_returns_step_props(1))
  have hd: "fst (foldr (calc_returns_step gam Float64) rs (0, [])) =
              (if 0 < length rs then as_float (?F ! 0) else 0)"
    using calc_returns_step_props(2)[of Float64 gam rs] len
    by (cases ?F) auto
  show ?case
  proof (cases t)
    case 0
    then show ?thesis using hd by (simp add: calc_returns_step_sel)
  next
    case (Suc t')
    then show ?thesis using Cons by (simp add: calc_returns_step_sel)
  qed
qed

text \<open>
  For rewards that numpy reads as a float array (a list holding at least one Python
  float, which is what the environments of the notebooks deliver) the returned array
  satisfies the backward recursion: the last entry is the last reward, every earlier
  entry is its reward plus \<open>gamma\<close> times the next entry.
\<close>

lemma calc_returns_float_recursion:
  assumes "zeros_like_dtype rewards = Float64" and "t < length rewards"
  shows "calc_returns gam rewards ! t =
           PyFloat (as_float (rewards ! t) + gam *
             (if Suc t < length rewards then as_float (calc_returns gam rewards ! Suc t) else 0))"
  using assms calc_returns_float_nth[of t rewards gam] by (simp add: calc_returns_def)

text \<open>
  Claim C8 (discounted return recursion): for every reward sequence \<^verbatim>\<open>calc_returns\<close>
  satisfies \<open>G_T = reward_T\<close> and \<open>G_t = reward_t + gamma * G_{t+1}\<close>; for rewards
  \<open>[1, 1, 1]\<close> and \<open>gamma = 0.5\<close> it returns \<open>[1.75, 1.5, 1]\<close>.

  The code does so for float rewards. For a list of Python ints, \<^verbatim>\<open>np.zeros_like(rewards)\<close>
  is an integer array and \<^verbatim>\<open>returns[t] = cumulative\<close> truncates: on \<^verbatim>\<open>[1, 1, 1]\<close> the
  result is \<open>[1, 1, 1]\<close>, and its entry 1 is not \<open>1 + 0.5 * 1\<close>.
\<close>

theorem calc_returns_integer_rewards_truncated:
  "calc_returns (1 / 2) [PyInt 1, PyInt 1, PyInt 1] = [PyInt 1, PyInt 1, PyInt 1]
   \<and> calc_returns (1 / 2) [PyFloat 1, PyFloat 1, PyFloat 1]
       = [PyFloat (7 / 4), PyFloat (3 / 2), PyFloat 1]"
  by (simp add: calc_returns_def calc_returns_step_def zeros_like_dtype_def trunc_def Let_def)


subsection \<open>DQN: effect of one loop iteration, of a rollout and of a run\<close>

lemma dqn_train_frame:
  assumes "dqn_train N a = Inr a'"
  shows "a' = a\<lparr>py_rng := py_rng a', dqn_agent.optimizer := dqn_agent.optimizer a',
                  dqn_agent.model := dqn_agent.model a'\<rparr>"
  using assms
  by (auto simp: dqn_train_def attempt_Inr_iff Let_def split_beta split: if_splits)

lemma sync_target_cases:
  "sync_target a =
     (if target_update_counter a + 1 = target_update_frequency a
      then a\<lparr>target_update_counter := 0, target_model := dqn_agent.model a\<rparr>
      else a\<lparr>target_update_counter := target_update_counter a + 1\<rparr>)"
  by (simp add: sync_target_def Let_def)

lemma dqn_body_Inr:
  assumes "dqn_body E N (a, state) = Inr r"
  shows "\<exists>action g' new_state reward done e' a2 st'.
    dqn_select_action N a state (epsilon a) = Inr (action, g') \<and>
    env_step E action (env a) = ((new_state, reward, done), e') \<and>
    dqn_train N (a\<lparr>env := e', np_rng := g',
        memory := deque_append (memory_maxlen a) (memory a) (state, action, reward, new_state, done)\<rparr>) = Inr a2 \<and>
    stats_add_last (stats (sync_target a2)) reward = Inr st' \<and>
    r = (if done then Break ((sync_target a2)\<lparr>stats := st'\<rparr>)
          else Continue ((sync_target a2)\<lparr>stats := st'\<rparr>, new_state))"
  using assms
  unfolding dqn_body_def
  by (cases "env_step E (fst (projr (dqn_select_action N a state (epsilon a)))) (env a)")
     (auto simp: attempt_Inr_iff Let_def split_beta)


lemma dqn_act_frame:
  assumes "dqn_act E N a = Some (Inr (a', tot))"
  shows "a' = a\<lparr>env := env a', np_rng := np_rng a'\<rparr>"
proof -
  let ?P = "\<lambda>b. b\<lparr>env := env a, np_rng := np_rng a\<rparr> = a"
  obtain state e1 where r: "env_reset E (env a) = (state, e1)" by force
  from assms r obtain a1 t1 where
    loop: "while_true (dqn_act_body E N) (a\<lparr>env := e1\<rparr>, state, False, 0) = Some (Inr (a1, t1))"
    and a': "a' = a1\<lparr>env := env_close E (env a1)\<rparr>"
    by (auto simp: dqn_act_def and_then_Some_Inr_iff)
  have "?P (fst (a1, t1))"
  proof (rule while_true_rule[OF loop, where P = "\<lambda>s. ?P (fst s)"])
    show "?P (fst (a\<lparr>env := e1\<rparr>, state, False, 0::real))" by simp
  next
    fix s s' assume "?P (fst s)" and "dqn_act_body E N s = Inr (Continue s')"
    then show "?P (fst s')"
      unfolding dqn_act_body_def
      by (auto simp: attempt_Inr_iff Let_def split_beta split: if_splits)
  next
    fix s r assume "?P (fst s)" and "dqn_act_body E N s = Inr (Break r)"
    then show "?P (fst r)"
      unfolding dqn_act_body_def
      by (auto simp: attempt_Inr_iff Let_def split_beta split: if_splits)
  qed
  then have "a = a1\<lparr>env := env a, np_rng := np_rng a\<rparr>" by simp
  then have "a\<lparr>env := env a', np_rng := np_rng a'\<rparr>
               = a1\<lparr>env := env a, np_rng := np_rng a\<rparr>\<lparr>env := env a', np_rng := np_rng a'\<rparr>"
    by simp
  also have "\<dots> = a'" using a' by simp
  finally show ?thesis by simp
qed

lemma dqn_body_effect:
  assumes "dqn_body E N (a, state) = Inr r"
    and "dqn_select_action N a state (epsilon a) = Inr (action, g')"
    and "env_step E action (env a) = ((new_state, reward, done), e')"
  shows "memory (flow_agent r) = deque_append (memory_maxlen a) (memory a) (state, action, reward, new_state, done)"
    and "memory_maxlen (flow_agent r) = memory_maxlen a"
    and "target_update_frequency (flow_agent r) = target_update_frequency a"
    and "target_update_counter (flow_agent r) =
           (if target_update_counter a + 1 = target_update_frequency a then 0
            else target_update_counter a + 1)"
    and "target_model (flow_agent r) =
           (if target_update_counter a + 1 = target_update_frequency a
            then dqn_agent.model (flow_agent r) else target_model a)"
proof -
  from dqn_body_Inr[OF assms(1)] assms(2,3) obtain a2 st' where
    tr: "dqn_train N (a\<lparr>env := e', np_rng := g',
        memory := deque_append (memory_maxlen a) (memory a) (state, action, reward, new_state, done)\<rparr>) = Inr a2"
    and r: "r = (if done then Break ((sync_target a2)\<lparr>stats := st'\<rparr>)
          else Continue ((sync_target a2)\<lparr>stats := st'\<rparr>, new_state))"
    by auto
  have fa: "flow_agent r = (sync_target a2)\<lparr>stats := st'\<rparr>"
    using r by (simp add: flow_agent_def)
  note fr = dqn_train_frame[OF tr]
  show "memory (flow_agent r) = deque_append (memory_maxlen a) (memory a) (state, action, reward, new_state, done)"
    unfolding fa by (subst fr) (simp add: sync_target_cases)
  show "memory_maxlen (flow_agent r) = memory_maxlen a"
    unfolding fa by (subst fr) (simp add: sync_target_cases)
  show "target_update_frequency (flow_agent r) = target_update_frequency a"
    unfolding fa by (subst fr) (simp add: sync_target_cases)
  have c: "target_update_counter a2 = target_update_counter a"
    and f: "target_update_frequency a2 = target_update_frequency a"
    and t: "target_model a2 = target_model a"
    by (subst fr, simp)+
  show "target_update_counter (flow_agent r) =
           (if target_update_counter a + 1 = target_update_frequency a then 0
            else target_update_counter a + 1)"
    unfolding fa using c f by (simp add: sync_target_cases)
  show "target_model (flow_agent r) =
           (if target_update_counter a + 1 = target_update_frequency a
            then dqn_agent.model (flow_agent r) else target_model a)"
    unfolding fa using c f t by (simp add: sync_target_cases)
qed


lemma dqn_act_keeps:
  assumes "dqn_act E N a = Some (Inr (a', tot))"
  shows "memory a' = memory a" "memory_maxlen a' = memory_maxlen a"
    "dqn_agent.model a' = dqn_agent.model a" "target_model a' = target_model a"
    "target_update_counter a' = target_update_counter a"
    "target_update_frequency a' = target_update_frequency a"
    "stats a' = stats a" "dqn_agent.optimizer a' = dqn_agent.optimizer a"
proof -
  note fr = dqn_act_frame[OF assms]
  show "memory a' = memory a" by (subst fr) simp
  show "memory_maxlen a' = memory_maxlen a" by (subst fr) simp
  show "dqn_agent.model a' = dqn_agent.model a" by (subst fr) simp
  show "target_model a' = target_model a" by (subst fr) simp
  show "target_update_counter a' = target_update_counter a" by (subst fr) simp
  show "target_update_frequency a' = target_update_frequency a" by (subst fr) simp
  show "stats a' = stats a" by (subst fr) simp
  show "dqn_agent.optimizer a' = dqn_agent.optimizer a" by (subst fr) simp
qed

lemma dqn_run_memory:
  assumes "dqn_run E N a ts a'"
  shows "memory_maxlen a' = memory_maxlen a
       \<and> memory a' = foldl (deque_append (memory_maxlen a)) (memory a) ts"
  using assms
proof (induction rule: dqn_run.induct)
  case start
  then show ?case by simp
next
  case (episode_start ts a1 state e1)
  then show ?case by simp
next
  case (loop_body ts a1 state action g' new_state reward dn e' r)
  from dqn_body_effect(1,2)[OF loop_body(4,2,3)] loop_body(5)
  show ?case by simp
next
  case (rollout ts a1 a2 total_reward)
  from dqn_act_keeps(1,2)[OF rollout(2)] rollout(3)
  show ?case by simp
qed

lemma foldl_deque_append:
  "foldl (deque_append m) [] ts = drop (length ts - m) ts"
proof (induction ts rule: rev_induct)
  case Nil
  then show ?case by simp
next
  case (snoc x xs)
  then show ?case by (simp only: foldl_append foldl.simps deque_append_window)
qed

lemmas toy_defs = toy_dqn_def dqn_init_def toy_env_def toy_net_def

lemma toy_body1:
  "dqn_body toy_env toy_net (toy_dqn\<lparr>stats := stats_append (stats toy_dqn) 0, env := 0\<rparr>, [0]) =
     Inr (Continue (toy_dqn\<lparr>env := 1, stats := [1], memory := [([0], 0, PyFloat 1, [1 / 2], False)],
                            dqn_agent.optimizer := 1, dqn_agent.model := 1, target_update_counter := 1\<rparr>, [1 / 2]))"
  by (simp add: dqn_body_def dqn_select_action_def np_random_def np_randint_def toy_defs
      deque_append_def dqn_train_def random_sample_def dqn_targets_def dqn_target_row_def
      q_target_def np_max_def row_set_def sync_target_def stats_add_last_def stats_append_def Let_def)


lemma toy_body2:
  "dqn_body toy_env toy_net
     (toy_dqn\<lparr>env := 1, stats := [1], memory := [([0], 0, PyFloat 1, [1 / 2], False)],
              dqn_agent.optimizer := 1, dqn_agent.model := 1, target_update_counter := 1\<rparr>, [1 / 2]) =
     Inr (Break (toy_dqn\<lparr>env := 2, stats := [2], memory := [([1 / 2], 0, PyFloat 1, [1 / 2], True)],
                         dqn_agent.optimizer := 2, dqn_agent.model := 2, target_model := 2,
                         target_update_counter := 0\<rparr>))"
  by (simp add: dqn_body_def dqn_select_action_def np_random_def np_randint_def toy_defs
      deque_append_def dqn_train_def random_sample_def dqn_targets_def dqn_target_row_def
      q_target_def np_max_def row_set_def sync_target_def stats_add_last_def stats_append_def Let_def)

lemma toy_dqn_run:
  "dqn_run toy_env toy_net toy_dqn
     [([0], 0, PyFloat 1, [1 / 2], False), ([1 / 2], 0, PyFloat 1, [1 / 2], True)]
     (toy_dqn\<lparr>env := 2, stats := [2], memory := [([1 / 2], 0, PyFloat 1, [1 / 2], True)],
              dqn_agent.optimizer := 2, dqn_agent.model := 2, target_model := 2,
              target_update_counter := 0\<rparr>)"
proof -
  let ?a0 = "toy_dqn\<lparr>stats := stats_append (stats toy_dqn) 0, env := 0\<rparr>"
  let ?a1 = "toy_dqn\<lparr>env := 1, stats := [1], memory := [([0], 0, PyFloat 1, [1 / 2], False)],
                     dqn_agent.optimizer := 1, dqn_agent.model := 1, target_update_counter := 1\<rparr>"
  have reset: "env_reset toy_env (env toy_dqn) = ([0], 0)"
    by (simp add: toy_defs)
  have sel0: "dqn_select_action toy_net ?a0 [0] (epsilon ?a0) = Inr (0, sconst 0)"
    and step0: "env_step toy_env 0 (env ?a0) = (([1 / 2], PyFloat 1, False), 1)"
    and sel1: "dqn_select_action toy_net ?a1 [1 / 2] (epsilon ?a1) = Inr (0, sconst 0)"
    and step1: "env_step toy_env 0 (env ?a1) = (([1 / 2], PyFloat 1, True), 2)"
    by (simp_all add: dqn_select_action_def np_random_def np_randint_def toy_defs)
  note r0 = dqn_run.episode_start[OF dqn_run.start reset]
  note r1 = dqn_run.loop_body[OF r0 sel0 step0 toy_body1]
  have r1': "dqn_run toy_env toy_net toy_dqn [([0], 0, PyFloat 1, [1 / 2], False)] ?a1"
    using r1 by (simp add: flow_agent_def)
  note r2 = dqn_run.loop_body[OF r1' sel1 step1 toy_body2]
  then show ?thesis by (simp add: flow_agent_def)
qed

lemma dqn_run_sync:
  assumes "dqn_run E N a ts a'"
  shows "target_update_frequency a' = target_update_frequency a
       \<and> (target_update_counter a + length ts < target_update_frequency a \<longrightarrow>
            target_update_counter a' = target_update_counter a + length ts
            \<and> target_model a' = target_model a)
       \<and> (target_update_counter a + length ts = target_update_frequency a \<and> ts \<noteq> [] \<longrightarrow>
            target_update_counter a' = 0 \<and> target_model a' = dqn_agent.model a')"
  using assms
proof (induction rule: dqn_run.induct)
  case start
  then show ?case by simp
next
  case (episode_start ts a1 state e1)
  then show ?case by simp
next
  case (loop_body ts a1 state action g' new_state reward dn e' r)
  note eff = dqn_body_effect(3,4,5)[OF loop_body(4,2,3)]
  from loop_body(5) eff show ?case by auto
next
  case (rollout ts a1 a2 total_reward)
  from dqn_act_keeps(3,4,5,6)[OF rollout(2)] rollout(3)
  show ?case by simp
qed

lemma dqn_body_continue_run:
  assumes run: "dqn_run E N a ts a1" and body: "dqn_body E N (a1, state) = Inr r"
  shows "\<exists>ts'. dqn_run E N a ts' (flow_agent r)"
proof -
  from dqn_body_Inr[OF body] obtain action g' new_state reward dn e' where
    "dqn_select_action N a1 state (epsilon a1) = Inr (action, g')"
    "env_step E action (env a1) = ((new_state, reward, dn), e')"
    by blast
  from dqn_run.loop_body[OF run this body] show ?thesis by blast
qed

lemma dqn_episode_run:
  assumes run: "dqn_run E N a ts a1" and ep: "dqn_episode E N episode a1 = Some (Inr a2)"
  shows "\<exists>ts'. dqn_run E N a ts' a2"
proof -
  let ?R = "\<lambda>b. \<exists>ts'. dqn_run E N a ts' b"
  obtain state e1 where reset: "env_reset E (env a1) = (state, e1)" by force
  let ?s0 = "(a1\<lparr>stats := stats_append (stats a1) 0, env := e1\<rparr>, state)"
  from ep reset obtain b where
    loop: "while_true (dqn_body E N) ?s0 = Some (Inr b)"
    and rest: "(if 0 < to_show b \<and> int episode mod to_show b = 0
                then and_then (dqn_act E N b) (\<lambda>(a3, total_reward). Some (Inr a3))
                else Some (Inr b)) = Some (Inr a2)"
    by (auto simp: dqn_episode_def and_then_Some_Inr_iff Let_def)
  have "?R b"
  proof (rule while_true_rule[OF loop, where P = "\<lambda>s. ?R (fst s)"])
    show "?R (fst ?s0)" using dqn_run.episode_start[OF run reset] by auto
  next
    fix s s' assume "?R (fst s)" and "dqn_body E N s = Inr (Continue s')"
    then show "?R (fst s')"
      using dqn_body_continue_run[of E N a _ "fst s" "snd s" "Continue s'"]
      by (auto simp: flow_agent_def split_beta)
  next
    fix s r assume "?R (fst s)" and "dqn_body E N s = Inr (Break r)"
    then show "?R r"
      using dqn_body_continue_run[of E N a _ "fst s" "snd s" "Break r"]
      by (auto simp: flow_agent_def)
  qed
  with rest show ?thesis
    by (auto simp: and_then_Some_Inr_iff split: if_splits intro: dqn_run.rollout)
qed

lemma dqn_execute_run:
  assumes "dqn_execute E N a = Some (Inr a')"
  shows "\<exists>ts. dqn_run E N a ts a'"
proof -
  have "for_each (dqn_episode E N) eps a1 = Some (Inr a') \<Longrightarrow> \<exists>ts. dqn_run E N a ts a1
        \<Longrightarrow> \<exists>ts. dqn_run E N a ts a'" for eps a1
  proof (induction eps arbitrary: a1)
    case Nil
    then show ?case by simp
  next
    case (Cons x xs)
    from Cons.prems(1) obtain a2 where
      "dqn_episode E N x a1 = Some (Inr a2)" "for_each (dqn_episode E N) xs a2 = Some (Inr a')"
      by (auto simp: and_then_Some_Inr_iff)
    with Cons.prems(2) dqn_episode_run show ?case
      using Cons.IH by blast
  qed
  with assms dqn_run.start show ?thesis
    unfolding dqn_execute_def by blast
qed

text \<open>The agent \<^verbatim>\<open>__init__\<close> builds: an empty memory of capacity 10000, the target network
  equal to the online network, the counter at 0 and a synchronization every 200 steps.\<close>

lemma dqn_init_fields:
  "memory (dqn_init E e mdl tgt opt g pg) = []"
  "memory_maxlen (dqn_init E e mdl tgt opt g pg) = 10000"
  "target_model (dqn_init E e mdl tgt opt g pg) = dqn_agent.model (dqn_init E e mdl tgt opt g pg)"
  "target_update_counter (dqn_init E e mdl tgt opt g pg) = 0"
  "target_update_frequency (dqn_init E e mdl tgt opt g pg) = 200"
  by (simp_all add: dqn_init_def)

text \<open>
  Claim C7 (replay buffer eviction): the memory starts empty (\<open>dqn_init\<close>) and only the
  loop iterations of \<^verbatim>\<open>execute\<close> append to it. After any run that appended the transitions
  \<open>ts\<close>, the memory holds the last \<open>memory_maxlen\<close> of them in insertion order and never
  more than \<open>memory_maxlen\<close>; after \<open>memory_maxlen + k\<close> insertions it holds exactly
  \<open>memory_maxlen\<close> entries, the transitions from the \<open>k\<close>-th on. By \<open>dqn_execute_run\<close>
  every result of \<^verbatim>\<open>execute\<close> is the end of such a run.
\<close>

theorem replay_memory_keeps_latest:
  assumes "dqn_run E N a ts a'" and "memory a = []"
  shows "memory a' = drop (length ts - memory_maxlen a) ts
       \<and> length (memory a') \<le> memory_maxlen a
       \<and> (length ts = memory_maxlen a + k \<longrightarrow>
            memory a' = drop k ts \<and> length (memory a') = memory_maxlen a)"
  using dqn_run_memory[OF assms(1)] assms(2)
  by (auto simp: foldl_deque_append)

theorem replay_memory_keeps_latest_witness:
  "dqn_run toy_env toy_net toy_dqn
     [([0], 0, PyFloat 1, [1 / 2], False), ([1 / 2], 0, PyFloat 1, [1 / 2], True)]
     (toy_dqn\<lparr>env := 2, stats := [2], memory := [([1 / 2], 0, PyFloat 1, [1 / 2], True)],
              dqn_agent.optimizer := 2, dqn_agent.model := 2, target_model := 2,
              target_update_counter := 0\<rparr>)
   \<and> memory toy_dqn = [] \<and> memory_maxlen toy_dqn = 1
   \<and> memory (toy_dqn\<lparr>env := 2, stats := [2], memory := [([1 / 2], 0, PyFloat 1, [1 / 2], True)],
              dqn_agent.optimizer := 2, dqn_agent.model := 2, target_model := 2,
              target_update_counter := 0\<rparr>)
       = drop 1 [([0], 0, PyFloat 1, [1 / 2], False), ([1 / 2], 0, PyFloat 1, [1 / 2], True)]"
  using replay_memory_keeps_latest[OF toy_dqn_run, of 1] toy_dqn_run
  by (simp add: toy_dqn_def dqn_init_def)

lemma dqn_train_keeps_target:
  "dqn_train N b = Inr b' \<Longrightarrow> target_model b' = target_model b"
  by (subst dqn_train_frame[of N b b']) simp_all

text \<open>
  Claim C6 (target network synchronization): start from a state whose counter is 0 (the
  initial state, or the state right after a synchronization). While fewer than
  \<open>target_update_frequency\<close> loop iterations have run, the target network is unchanged and
  the counter counts the iterations; once exactly \<open>target_update_frequency\<close> iterations
  have run, the target network equals the online network and the counter is 0 again. A
  training step never changes the target network.
\<close>

theorem target_network_sync:
  assumes "dqn_run E N a ts a'" and "target_update_counter a = 0" 
    and "0 < target_update_frequency a"
  shows "(length ts < target_update_frequency a \<longrightarrow>
            target_model a' = target_model a \<and> target_update_counter a' = length ts)
       \<and> (length ts = target_update_frequency a \<longrightarrow>
            target_model a' = dqn_agent.model a' \<and> target_update_counter a' = 0)
       \<and> (\<forall>b b'. dqn_train N b = Inr b' \<longrightarrow> target_model b' = target_model b)"
  using dqn_run_sync[OF assms(1)] assms(2,3)
  by (auto dest: dqn_train_keeps_target)

theorem target_network_sync_witness:
  "dqn_run toy_env toy_net toy_dqn
     [([0], 0, PyFloat 1, [1 / 2], False), ([1 / 2], 0, PyFloat 1, [1 / 2], True)]
     (toy_dqn\<lparr>env := 2, stats := [2], memory := [([1 / 2], 0, PyFloat 1, [1 / 2], True)],
              dqn_agent.optimizer := 2, dqn_agent.model := 2, target_model := 2,
              target_update_counter := 0\<rparr>)
   \<and> target_update_counter toy_dqn = 0 \<and> target_update_frequency toy_dqn = 2
   \<and> target_model toy_dqn = 0
   \<and> target_model (toy_dqn\<lparr>env := 2, stats := [2], memory := [([1 / 2], 0, PyFloat 1, [1 / 2], True)],
              dqn_agent.optimizer := 2, dqn_agent.model := 2, target_model := 2,
              target_update_counter := 0\<rparr>) = 2"
  using target_network_sync[OF toy_dqn_run] toy_dqn_run
  by (simp add: toy_dqn_def dqn_init_def)


subsection \<open>Discretization\<close>

lemma trunc_bounds:
  assumes "0 \<le> x" "x < real n"
  shows "0 \<le> trunc x \<and> trunc x < int n"
  using assms by (auto simp: trunc_def floor_less_iff)

lemma discretize_component:
  assumes "l \<le> x" "x < h" "0 < n"
  shows "0 \<le> trunc ((x - l) / ((h - l) / real n)) \<and> trunc ((x - l) / ((h - l) / real n)) < int n"
proof (rule trunc_bounds)
  have hl: "0 < h - l" using assms by simp
  show "0 \<le> (x - l) / ((h - l) / real n)" using assms hl by simp
  have "(x - l) / ((h - l) / real n) = real n * ((x - l) / (h - l))" by simp
  also have "\<dots> < real n * 1"
    using assms hl by (intro mult_strict_left_mono) (auto simp: divide_less_eq)
  finally show "(x - l) / ((h - l) / real n) < real n" by simp
qed

text \<open>Inside the bounds, strictly below the upper one, every index component is in range.\<close>

lemma get_discrete_state_in_range:
  assumes init: "tabular_init E e num_grids g = Inr a"
    and len: "length state = length (observation_space_low E)"
    and bounds: "\<forall>i<length state. observation_space_low E ! i \<le> state ! i
                    \<and> state ! i < observation_space_high E ! i"
  shows "\<exists>idx. get_discrete_state E a state = Inr idx \<and> length idx = length num_grids
           \<and> (\<forall>i<length idx. 0 \<le> idx ! i \<and> idx ! i < int (num_grids ! i))"
proof -
  let ?l = "observation_space_low E" and ?h = "observation_space_high E"
  from init have lens: "length ?h = length ?l" "length num_grids = length ?l"
    and pos: "0 \<notin> set num_grids"
    and gs: "grid_size a = map2 (\<lambda>d n. d / real n) (map2 (-) ?h ?l) num_grids"
    by (auto simp: tabular_init_def split: if_splits)
  have gi: "grid_size a ! i = (?h ! i - ?l ! i) / real (num_grids ! i)" if "i < length ?l" for i
    using that lens by (simp add: gs)
  have npos: "0 < num_grids ! i" if "i < length ?l" for i
    using that lens pos by (metis gr0I nth_mem)
  have nz: "0 \<notin> set (grid_size a)"
  proof
    assume "0 \<in> set (grid_size a)"
    then obtain i where i: "i < length (grid_size a)" "grid_size a ! i = 0"
      by (auto simp: in_set_conv_nth)
    then have il: "i < length ?l" using lens by (simp add: gs)
    with bounds len have "?l ! i < ?h ! i" by fastforce
    with gi[OF il] npos[OF il] i(2) show False by simp
  qed
  have glen: "length (grid_size a) = length ?l" using lens by (simp add: gs)
  let ?idx = "map trunc (map2 (/) (map2 (-) state ?l) (grid_size a))"
  have res: "get_discrete_state E a state = Inr ?idx"
    using len glen nz by (simp add: get_discrete_state_def)
  have "0 \<le> ?idx ! i \<and> ?idx ! i < int (num_grids ! i)" if "i < length ?idx" for i
  proof -
    from that have il: "i < length ?l" using len glen by simp
    have "?idx ! i = trunc ((state ! i - ?l ! i) / ((?h ! i - ?l ! i) / real (num_grids ! i)))"
      using il len glen gi[OF il] by simp
    with discretize_component[of "?l ! i" "state ! i" "?h ! i" "num_grids ! i"] bounds il len npos[OF il]
    show ?thesis by simp
  qed
  moreover have "length ?idx = length num_grids" using len glen lens by simp
  ultimately show ?thesis using res by blast
qed

text \<open>
  Claim C1 (tabular indexing): for every observation within \<open>[low, high]\<close>, also one equal
  to \<open>high\<close>, every component \<open>i\<close> of the index tuple lies in \<open>[0, num_grids_i)\<close>.

  The code achieves this for \<open>low \<le> state < high\<close> (\<open>get_discrete_state_in_range\<close>). At
  \<open>state = high\<close> the quotient is exactly \<open>num_grids\<close>: with bounds \<open>[0, 1]\<close> and two grid
  cells the index is 2, and the lookup in the table of shape \<open>(2, 2)\<close> raises IndexError.
\<close>

theorem discretizer_upper_bound_out_of_range:
  "(case tabular_init toy_env 0 [2] (sconst 0) of
      Inl e \<Rightarrow> False
    | Inr a \<Rightarrow> get_discrete_state toy_env a (observation_space_high toy_env) = Inr [2]
             \<and> shape (q_table a) = [2, 2]
             \<and> q_row (q_table a) [2] = Inl IndexError)"
  by (simp add: tabular_init_def toy_env_def get_discrete_state_def trunc_def np_zeros_def
      q_row_def norm_index_def)

subsection \<open>Action selection\<close>

lemma q_max_actions_set:
  "set (q_max_actions q) = {i. i < length q \<and> q ! i = Max (set q)}"
  by (auto simp: q_max_actions_def)

lemma q_max_actions_distinct: "distinct (q_max_actions q)"
  by (simp add: q_max_actions_def)

lemma q_max_actions_sorted: "sorted (q_max_actions q)"
  by (simp add: q_max_actions_def sorted_filter[where f = id, simplified])

lemma q_max_actions_nonempty: "q \<noteq> [] \<Longrightarrow> q_max_actions q \<noteq> []"
proof -
  assume "q \<noteq> []"
  then have "Max (set q) \<in> set q" by (intro Max_in) auto
  then obtain i where "i < length q" "q ! i = Max (set q)" by (auto simp: in_set_conv_nth)
  then have "i \<in> set (q_max_actions q)" by (simp add: q_max_actions_set)
  then show ?thesis by auto
qed

lemma q_max_actions_bij:
  "bij_betw (\<lambda>k. q_max_actions q ! k) {..<length (q_max_actions q)}
     {i. i < length q \<and> q ! i = Max (set q)}"
  using bij_betw_nth[OF q_max_actions_distinct, of "{..<length (q_max_actions q)}" q
      "{i. i < length q \<and> q ! i = Max (set q)}"]
  by (simp add: q_max_actions_set)

lemma q_max_actions_hd_first:
  assumes "q \<noteq> []"
  shows "hd (q_max_actions q) < length q \<and> q ! hd (q_max_actions q) = Max (set q)
       \<and> (\<forall>i<hd (q_max_actions q). q ! i < Max (set q))"
proof -
  let ?m = "q_max_actions q"
  from q_max_actions_nonempty[OF assms] obtain x xs where m: "?m = x # xs" by (cases ?m) auto
  then have "x \<in> set ?m" by simp
  then have x: "x < length q" "q ! x = Max (set q)" by (simp_all add: q_max_actions_set)
  have "q ! i < Max (set q)" if "i < x" for i
  proof -
    from that x have il: "i < length q" by simp
    have "i \<notin> set ?m"
    proof
      assume "i \<in> set ?m"
      with q_max_actions_sorted[of q] m have "x \<le> i" by auto
      with that show False by simp
    qed
    with il have "q ! i \<noteq> Max (set q)" by (simp add: q_max_actions_set)
    moreover have "q ! i \<le> Max (set q)" using il by (intro Max_ge) auto
    ultimately show ?thesis by simp
  qed
  with x m show ?thesis by simp
qed

lemma np_random_range: "0 \<le> fst (np_random g) \<and> fst (np_random g) < 1"
  by (simp add: np_random_def)

text \<open>
  Claim C2 (epsilon-greedy selection), as the code has it. The uniform draw \<open>u\<close> lies in
  \<open>[0, 1)\<close> and both selectors explore exactly when \<open>u < epsilon\<close>, returning the
  \<^verbatim>\<open>randint\<close> draw over all action indices. Otherwise the tabular selector returns entry
  \<open>k\<close> of \<open>q_max_actions\<close> for a second \<^verbatim>\<open>randint\<close> draw \<open>k\<close>, and the positions of that list
  correspond one to one to the maximizing indices, so every maximizing index is as likely
  as any other. The DQN selector draws nothing more: it returns the first maximizing
  index (\<^verbatim>\<open>np.argmax\<close>), every index before it having a smaller value.
\<close>

theorem epsilon_greedy_tie_breaking:
  assumes "q_values \<noteq> []" and "predict N (dqn_agent.model a) state \<noteq> []"
    and "0 < dqn_agent.action_size a"
  shows "0 \<le> fst (np_random g) \<and> fst (np_random g) < 1
       \<and> (fst (np_random g) < eps \<longrightarrow>
            epsilon_greedy_selection q_values eps g
              = Inr (shd (stl g) mod length q_values, stl (stl g)))
       \<and> (\<not> fst (np_random g) < eps \<longrightarrow>
            epsilon_greedy_selection q_values eps g
              = Inr (q_max_actions q_values ! (shd (stl g) mod length (q_max_actions q_values)),
                     stl (stl g)))
       \<and> bij_betw (\<lambda>k. q_max_actions q_values ! k) {..<length (q_max_actions q_values)}
            {i. i < length q_values \<and> q_values ! i = Max (set q_values)}
       \<and> (fst (np_random (np_rng a)) < eps \<longrightarrow>
            dqn_select_action N a state eps
              = Inr (shd (stl (np_rng a)) mod dqn_agent.action_size a, stl (stl (np_rng a))))
       \<and> (\<not> fst (np_random (np_rng a)) < eps \<longrightarrow>
            dqn_select_action N a state eps
              = Inr (hd (q_max_actions (predict N (dqn_agent.model a) state)), stl (np_rng a)))
       \<and> (\<forall>i<hd (q_max_actions (predict N (dqn_agent.model a) state)).
            predict N (dqn_agent.model a) state ! i < Max (set (predict N (dqn_agent.model a) state)))"
  using assms q_max_actions_nonempty[OF assms(1)] q_max_actions_bij[of q_values]
    q_max_actions_hd_first[OF assms(2)] np_random_range[of g]
  by (simp add: epsilon_greedy_selection_def dqn_select_action_def np_random_def np_randint_def
      np_max_def np_argmax_def Let_def)

text \<open>
  Claim C2 as stated fails for the DQN selector: with two equal action values and
  \<open>epsilon = 0\<close>, index 1 is a maximizing index, yet whatever the generator delivers the
  selector returns index 0. The tabular selector does return index 1 on the same values.
\<close>

theorem dqn_select_action_ignores_ties:
  "1 \<in> set (q_max_actions (predict toy_net 0 [0]))
   \<and> (\<forall>g pg. dqn_select_action toy_net (dqn_init toy_env 0 0 0 0 g pg) [0] 0 = Inr (0, stl g))
   \<and> epsilon_greedy_selection (predict toy_net 0 [0]) 0 (0 ## sconst 1) = Inr (1, sconst 1)"
  by (simp add: toy_net_def q_max_actions_def dqn_select_action_def dqn_init_def np_random_def
      np_argmax_def epsilon_greedy_selection_def np_max_def np_randint_def)

theorem epsilon_greedy_tie_breaking_witness:
  "epsilon_greedy_selection [0, 0] 0 (0 ## sconst 1) = Inr (1, sconst 1)
   \<and> epsilon_greedy_selection [0, 0] 1 (0 ## sconst 1) = Inr (1, sconst 1)
   \<and> dqn_select_action toy_net (toy_dqn\<lparr>np_rng := 0 ## sconst 1\<rparr>) [0] 0 = Inr (0, sconst 1)
   \<and> dqn_select_action toy_net (toy_dqn\<lparr>np_rng := 0 ## sconst 1\<rparr>) [0] 1 = Inr (1, sconst 1)"
  using epsilon_greedy_tie_breaking[of "[0, 0]" toy_net "toy_dqn\<lparr>np_rng := 0 ## sconst 1\<rparr>" "[0]" "0 ## sconst 1" 0]
    epsilon_greedy_tie_breaking[of "[0, 0]" toy_net "toy_dqn\<lparr>np_rng := 0 ## sconst 1\<rparr>" "[0]" "0 ## sconst 1" 1]
  by (simp add: toy_net_def toy_dqn_def dqn_init_def toy_env_def np_random_def q_max_actions_def)


subsection \<open>float64 rounding\<close>

text \<open>\<open>round_half_even\<close> returns a nearest integer and \<open>binary_exponent\<close> the exponent of the
  binade, so \<open>fl64\<close> is off by at most half a unit in the last place.\<close>

lemma pow2_powr: "pow2 k = 2 powr (real_of_int k)"
proof (cases "0 \<le> k")
  case True
  then show ?thesis by (simp add: pow2_def powr_realpow[symmetric])
next
  case False
  then have "2 powr (real_of_int k) = 1 / 2 powr (real_of_int (- k))"
    by (simp add: powr_minus_divide)
  also have "\<dots> = 1 / 2 ^ nat (- k)"
    using False by (simp add: powr_realpow[symmetric])
  finally show ?thesis using False by (simp add: pow2_def)
qed

lemma pow2_of_nat: "pow2 (int k) = 2 ^ k"
  by (simp add: pow2_def)

lemma pow2_minus_of_nat: "pow2 (- int k) = 1 / 2 ^ k"
  by (cases "k = 0") (simp_all add: pow2_def)

lemma pow2_pos: "0 < pow2 k"
  by (simp add: pow2_powr)

lemma round_half_even_nearest: "\<bar>of_int (round_half_even x) - x\<bar> \<le> \<bar>of_int k - x\<bar>"
proof (cases "k \<le> \<lfloor>x\<rfloor>")
  case True
  then have k: "of_int k \<le> x" by linarith
  have "x - of_int \<lfloor>x\<rfloor> \<le> x - of_int k" using True by simp
  with k show ?thesis unfolding round_half_even_def Let_def by (auto; linarith)
next
  case False
  then have "\<lfloor>x\<rfloor> + 1 \<le> k" by simp
  then have k: "of_int \<lfloor>x\<rfloor> + 1 \<le> (of_int k :: real)" by linarith
  then show ?thesis unfolding round_half_even_def Let_def by (auto; linarith)
qed

lemma round_half_even_half: "\<bar>of_int (round_half_even x) - x\<bar> \<le> 1 / 2"
  unfolding round_half_even_def Let_def by (auto; linarith)

lemma binary_exponent_bounds:
  assumes "x \<noteq> 0"
  shows "pow2 (binary_exponent x) \<le> \<bar>x\<bar> \<and> \<bar>x\<bar> < pow2 (binary_exponent x + 1)"
proof (cases "1 \<le> \<bar>x\<bar>")
  case True
  define n where "n = nat \<lfloor>\<bar>x\<bar>\<rfloor>"
  have n1: "0 < n" using True by (simp add: n_def)
  have nx: "real n \<le> \<bar>x\<bar>" "\<bar>x\<bar> < real n + 1"
    unfolding n_def by (simp_all add: of_nat_nat)
  from floorlog_bounds[of n 2] n1 have b: "2 ^ (floorlog 2 n - 1) \<le> n" "n < 2 ^ floorlog 2 n"
    by simp_all
  have k1: "0 < floorlog 2 n" using n1 by (simp add: floorlog_def)
  have e: "binary_exponent x = int (floorlog 2 n) - 1"
    using True by (simp add: binary_exponent_def n_def)
  have "binary_exponent x = int (floorlog 2 n - 1)"
    using k1 e by linarith
  then have p1: "pow2 (binary_exponent x) = 2 ^ (floorlog 2 n - 1)"
    by (simp only: pow2_of_nat)
  have "binary_exponent x + 1 = int (floorlog 2 n)"
    using e by linarith
  then have p2: "pow2 (binary_exponent x + 1) = 2 ^ floorlog 2 n"
    by (simp only: pow2_of_nat)
  have lo: "(2 :: real) ^ (floorlog 2 n - 1) \<le> real n"
    using of_nat_mono[OF b(1), where 'a = real] by simp
  have hi: "real n + 1 \<le> (2 :: real) ^ floorlog 2 n"
  proof -
    from b(2) have "Suc n \<le> 2 ^ floorlog 2 n" by simp
    then have "real (Suc n) \<le> real (2 ^ floorlog 2 n)" by (rule of_nat_mono)
    then show ?thesis by simp
  qed
  from lo hi nx show ?thesis unfolding p1 p2 by linarith
next
  case False
  define y where "y = 1 / \<bar>x\<bar>"
  have y1: "1 < y" using False assms by (simp add: y_def)
  define m where "m = nat (\<lceil>y\<rceil> - 1)"
  have c: "2 \<le> \<lceil>y\<rceil>" using y1 by linarith
  have m1: "0 < m" using c by (simp add: m_def)
  have my: "real m < y" "y \<le> real m + 1"
    unfolding m_def using c by (simp_all add: of_nat_nat) linarith+
  from floorlog_bounds[of m 2] m1 have b: "2 ^ (floorlog 2 m - 1) \<le> m" "m < 2 ^ floorlog 2 m"
    by simp_all
  have k1: "0 < floorlog 2 m" using m1 by (simp add: floorlog_def)
  have e: "binary_exponent x = - int (floorlog 2 m)"
    using False by (simp add: binary_exponent_def m_def y_def)
  have p1: "pow2 (binary_exponent x) = 1 / 2 ^ floorlog 2 m"
    unfolding e by (rule pow2_minus_of_nat)
  have "binary_exponent x + 1 = - int (floorlog 2 m - 1)"
    using k1 e by linarith
  then have p2: "pow2 (binary_exponent x + 1) = 1 / 2 ^ (floorlog 2 m - 1)"
    by (simp only: pow2_minus_of_nat)
  have "(2 :: real) ^ (floorlog 2 m - 1) \<le> real m"
    using of_nat_mono[OF b(1), where 'a = real] by simp
  then have lo: "2 ^ (floorlog 2 m - 1) < y" using my by linarith
  have "real m + 1 \<le> (2 :: real) ^ floorlog 2 m"
  proof -
    from b(2) have "Suc m \<le> 2 ^ floorlog 2 m" by simp
    then have "real (Suc m) \<le> real (2 ^ floorlog 2 m)" by (rule of_nat_mono)
    then show ?thesis by simp
  qed
  then have hi: "y \<le> 2 ^ floorlog 2 m" using my by linarith
  have xy: "\<bar>x\<bar> = 1 / y" by (simp add: y_def)
  have "1 / 2 ^ floorlog 2 m \<le> 1 / y"
    using hi y1 by (intro divide_left_mono) simp_all
  moreover have "1 / y < 1 / 2 ^ (floorlog 2 m - 1)"
    using lo y1 by (intro divide_strict_left_mono) simp_all
  ultimately show ?thesis unfolding p1 p2 xy by simp
qed

lemma fl64_error:
  "\<bar>fl64 x - x\<bar> \<le> pow2 (max (binary_exponent x) (- 1022) - 52) / 2"
proof (cases "x = 0")
  case True
  then show ?thesis using pow2_pos[of "max (binary_exponent 0) (- 1022) - 52"] by (simp add: fl64_def)
next
  case False
  define u where "u = pow2 (max (binary_exponent x) (- 1022) - 52)"
  have u: "0 < u" by (simp add: u_def pow2_pos)
  have "fl64 x - x = (of_int (round_half_even (x / u)) - x / u) * u"
    using False u by (simp add: fl64_def u_def[symmetric] Let_def left_diff_distrib)
  then have "\<bar>fl64 x - x\<bar> = \<bar>of_int (round_half_even (x / u)) - x / u\<bar> * u"
    using u by (simp add: abs_mult)
  also have "\<dots> \<le> 1 / 2 * u"
    using u round_half_even_half[of "x / u"] by (intro mult_right_mono) simp_all
  finally show ?thesis by (simp add: u_def)
qed

text \<open>The float64 values of some literals, and the two steps of a target.\<close>

lemmas fl64_eval = fl64_def binary_exponent_def round_half_even_def pow2_def compute_floorlog Let_def

lemma fl64_literals:
  "fl64 (99 / 100) = 4458563631096791 / 4503599627370496"
  "fl64 (1 / 10) = 3602879701896397 / 36028797018963968"
  "fl64 (- 1) = - 1" "fl64 1 = 1"
  "fl64 (4458563631096791 / 4503599627370496) = 4458563631096791 / 4503599627370496"
  by (simp_all add: fl64_eval)

subsection \<open>Tabular temporal-difference updates\<close>

lemma q_max_actions_bound: "i \<in> set (q_max_actions q) \<Longrightarrow> i < length q \<and> q ! i = Max (set q)"
  by (simp add: q_max_actions_set)

lemma epsilon_greedy_selection_Inr:
  assumes "epsilon_greedy_selection q eps g = Inr (act, g')"
  shows "q \<noteq> [] \<and> act < length q"
proof -
  have ne: "q \<noteq> []"
    using assms
    by (auto simp: epsilon_greedy_selection_def np_random_def np_randint_def np_max_def
        attempt_Inr_iff Let_def split: if_splits)
  have "act < length q"
  proof (cases "fst (np_random g) < eps")
    case True
    with assms ne show ?thesis
      by (auto simp: epsilon_greedy_selection_def np_random_def np_randint_def Let_def
          split: if_splits)
  next
    case False
    with assms ne have "act = q_max_actions q ! (shd (stl g) mod length (q_max_actions q))"
      by (auto simp: epsilon_greedy_selection_def np_random_def np_randint_def np_max_def
          attempt_Inr_iff Let_def split: if_splits)
    moreover have "shd (stl g) mod length (q_max_actions q) < length (q_max_actions q)"
      using q_max_actions_nonempty[OF ne] by simp
    ultimately have "act \<in> set (q_max_actions q)" by simp
    then show ?thesis by (simp add: q_max_actions_bound)
  qed
  with ne show ?thesis by simp
qed

lemma td_update_Inr:
  assumes "td_update t idx alph q_new = Inr t'"
  shows "\<exists>js. norm_indices (shape t) idx = Inr js
           \<and> t' = t\<lparr>cells := (cells t)(js := cells t js + alph * (q_new - cells t js))\<rparr>"
  using assms by (auto simp: td_update_def q_get_def q_set_def attempt_Inr_iff)

lemma sarsa_q_new_Inr:
  assumes "sarsa_q_new gam t reward dn new_state new_action = Inr q_new"
    and "q_row t new_state = Inr row"
  shows "q_new = (if dn then as_float reward else as_float reward + gam * row ! new_action)"
  using assms by (auto simp: sarsa_q_new_def row_get_def attempt_Inr_iff split: if_splits)


lemma upt_0_2: "[0..<2] = [0, 1]"
  by (simp add: numeral_2_eq_2 upt_conv_Cons)

lemma toy_tabular_fields:
  "env toy_tabular = 0" "np_rng toy_tabular = sconst 0" "epsilon toy_tabular = 3 / 10"
  "gamma toy_tabular = 99 / 100" "alpha toy_tabular = 1 / 10" "stats toy_tabular = [0]"
  "grid_size toy_tabular = [1 / 2]"
  "q_table toy_tabular = \<lparr>shape = [2, 2], cells = (\<lambda>_. 0)([0, 1] := 1)\<rparr>"
  by (simp_all add: toy_tabular_def tabular_init_def toy_env_def)

lemma toy_sarsa_body:
  "sarsa_body toy_env (toy_tabular, [0], 0)
     = Inr (Continue (toy_tabular\<lparr>env := 1, stats := [1],
                        q_table := \<lparr>shape = [2, 2], cells = (\<lambda>_. 0)([0, 1] := 1, [0, 0] := 1 / 10)\<rparr>\<rparr>,
                      [1], 0))"
  by (simp add: sarsa_body_def toy_tabular_fields toy_env_def get_discrete_state_def trunc_def
      q_row_def norm_index_def epsilon_greedy_selection_def np_random_def np_randint_def
      sarsa_q_new_def row_get_def td_update_def q_get_def q_set_def stats_add_last_def
      upt_0_2 Let_def)


text \<open>
  Claim C3 (SARSA time step): in every iteration of the loop that does not raise, the next
  action is selected by \<open>epsilon_greedy_selection\<close> on the row \<open>Q[next_state]\<close> with the agent's
  own \<open>epsilon\<close>; the target is the reward when the episode is done and
  \<open>reward + gamma * Q[next_state][next_action]\<close> otherwise; exactly the entry
  \<open>Q[state][action]\<close> changes, by \<open>alpha * (target - Q[state][action])\<close>; and when the episode
  continues the loop goes on from \<open>(next_state, next_action)\<close>, so the next call of
  \<^verbatim>\<open>env.step\<close> executes the action the target was computed with. \<open>epsilon\<close>, \<open>gamma\<close> and
  \<open>alpha\<close> stay as they are.
\<close>

theorem sarsa_step:
  assumes body: "sarsa_body E (a, state, action) = Inr r"
    and step: "env_step E action (env a) = ((new_obs, reward, dn), e')"
  shows "\<exists>new_state row new_action g' js target.
           get_discrete_state E a new_obs = Inr new_state
         \<and> q_row (q_table a) new_state = Inr row
         \<and> epsilon_greedy_selection row (epsilon a) (np_rng a) = Inr (new_action, g')
         \<and> new_action < length row
         \<and> target = (if dn then as_float reward else as_float reward + gamma a * row ! new_action)
         \<and> norm_indices (shape (q_table a)) (state @ [int action]) = Inr js
         \<and> q_table (flow_agent r) = (q_table a)\<lparr>cells := (cells (q_table a))
               (js := cells (q_table a) js + alpha a * (target - cells (q_table a) js))\<rparr>
         \<and> epsilon (flow_agent r) = epsilon a \<and> gamma (flow_agent r) = gamma a
         \<and> alpha (flow_agent r) = alpha a
         \<and> r = (if dn then Break (flow_agent r)
                 else Continue (flow_agent r, new_state, new_action))
         \<and> (\<not> dn \<longrightarrow> while_true (sarsa_body E) (a, state, action)
                         = while_true (sarsa_body E) (flow_agent r, new_state, new_action))"
proof -
  from body step obtain new_state row new_action g' q_new t' st' where
    ds: "get_discrete_state E a new_obs = Inr new_state"
    and row: "q_row (q_table a) new_state = Inr row"
    and sel: "epsilon_greedy_selection row (epsilon a) (np_rng a) = Inr (new_action, g')"
    and qn: "sarsa_q_new (gamma a) (q_table a) reward dn new_state new_action = Inr q_new"
    and upd: "td_update (q_table a) (state @ [int action]) (alpha a) q_new = Inr t'"
    and r: "r = (if dn then Break (a\<lparr>env := e', np_rng := g', q_table := t', stats := st'\<rparr>)
                 else Continue (a\<lparr>env := e', np_rng := g', q_table := t', stats := st'\<rparr>,
                                new_state, new_action))"
    unfolding sarsa_body_def by (auto simp: attempt_Inr_iff Let_def)
  let ?a' = "a\<lparr>env := e', np_rng := g', q_table := t', stats := st'\<rparr>"
  have fa: "flow_agent r = ?a'" using r by (simp add: flow_agent_def)
  from td_update_Inr[OF upd] obtain js where
    js: "norm_indices (shape (q_table a)) (state @ [int action]) = Inr js"
    and t': "t' = (q_table a)\<lparr>cells := (cells (q_table a))
               (js := cells (q_table a) js + alpha a * (q_new - cells (q_table a) js))\<rparr>"
    by blast
  note tgt = sarsa_q_new_Inr[OF qn row]
  have lt: "new_action < length row" using epsilon_greedy_selection_Inr[OF sel] by simp
  have loop: "while_true (sarsa_body E) (a, state, action)
                = while_true (sarsa_body E) (?a', new_state, new_action)" if "\<not> dn"
    using that body r by (subst while_true.simps) simp
  show ?thesis
    unfolding fa
    using ds row sel lt tgt js t' r loop by (intro exI[of _ new_state] exI[of _ row] exI[of _ new_action] exI[of _ g'] exI[of _ js] exI[of _ q_new]) simp
qed

theorem sarsa_step_witness:
  "sarsa_body toy_env (toy_tabular, [0], 0)
     = Inr (Continue (toy_tabular\<lparr>env := 1, stats := [1],
                        q_table := \<lparr>shape = [2, 2], cells = (\<lambda>_. 0)([0, 1] := 1, [0, 0] := 1 / 10)\<rparr>\<rparr>,
                      [1], 0))
   \<and> env_step toy_env 0 (env toy_tabular) = (([1 / 2], PyFloat 1, False), 1)
   \<and> q_get (q_table toy_tabular) [0, 0] = Inr 0
   \<and> while_true (sarsa_body toy_env) (toy_tabular, [0], 0)
       = while_true (sarsa_body toy_env)
           (toy_tabular\<lparr>env := 1, stats := [1],
              q_table := \<lparr>shape = [2, 2], cells = (\<lambda>_. 0)([0, 1] := 1, [0, 0] := 1 / 10)\<rparr>\<rparr>, [1], 0)"
proof -
  have step: "env_step toy_env 0 (env toy_tabular) = (([1 / 2], PyFloat 1, False), 1)"
    by (simp add: toy_tabular_fields toy_env_def)
  from sarsa_step[OF toy_sarsa_body step] toy_sarsa_body step show ?thesis
    by (auto simp: flow_agent_def toy_tabular_fields q_get_def norm_index_def)
qed


text \<open>
  Claim C4 (SARSA and Q-learning targets): for a transition that is not terminal and a
  next action chosen by \<open>epsilon_greedy_selection\<close> on \<open>Q[next_state]\<close>, the Q-learning target
  is \<open>reward + gamma * max Q[next_state]\<close> and the SARSA target is
  \<open>reward + gamma * Q[next_state][next_action]\<close>, each as float64 computes it (the product
  rounded, then the sum rounded). An action with the maximal value gives equal targets
  whichever index it has, so the targets differ only when the next action is not a greedy
  one (not among the maximizing indices). For such an action and \<open>gamma \<noteq> 0\<close> the two sums
  differ before rounding.
\<close>

theorem sarsa_vs_qlearning_target:
  assumes row: "q_row (q_table a) new_state = Inr row"
    and sel: "epsilon_greedy_selection row (epsilon a) g = Inr (new_action, g')"
  shows "qlearning_q_new_f64 (gamma a) (q_table a) reward False new_state
           = Inr (f64_add (fl64 (as_float reward)) (f64_mul (gamma a) (Max (set row))))
       \<and> sarsa_q_new_f64 (gamma a) (q_table a) reward False new_state new_action
           = Inr (f64_add (fl64 (as_float reward)) (f64_mul (gamma a) (row ! new_action)))
       \<and> (row ! new_action = Max (set row) \<longrightarrow>
             sarsa_q_new_f64 (gamma a) (q_table a) reward False new_state new_action
               = qlearning_q_new_f64 (gamma a) (q_table a) reward False new_state)
       \<and> (sarsa_q_new_f64 (gamma a) (q_table a) reward False new_state new_action
             \<noteq> qlearning_q_new_f64 (gamma a) (q_table a) reward False new_state
           \<longrightarrow> new_action \<notin> set (q_max_actions row))
       \<and> (gamma a \<noteq> 0 \<and> new_action \<notin> set (q_max_actions row) \<longrightarrow>
             as_float reward + gamma a * row ! new_action
               \<noteq> as_float reward + gamma a * Max (set row))"
proof -
  from epsilon_greedy_selection_Inr[OF sel] have ne: "row \<noteq> []" and lt: "new_action < length row"
    by simp_all
  have q: "qlearning_q_new_f64 (gamma a) (q_table a) reward False new_state
           = Inr (f64_add (fl64 (as_float reward)) (f64_mul (gamma a) (Max (set row))))"
    using row ne by (simp add: qlearning_q_new_f64_def np_max_def)
  have s: "sarsa_q_new_f64 (gamma a) (q_table a) reward False new_state new_action
           = Inr (f64_add (fl64 (as_float reward)) (f64_mul (gamma a) (row ! new_action)))"
    using row lt by (simp add: sarsa_q_new_f64_def row_get_def)
  have m: "new_action \<in> set (q_max_actions row) \<longleftrightarrow> row ! new_action = Max (set row)"
    using lt by (simp add: q_max_actions_set)
  show ?thesis unfolding q s using m by auto
qed

theorem sarsa_vs_qlearning_target_witness:
  "q_row (q_table toy_tabular_f64) [0] = Inr [0, 1]
   \<and> epsilon_greedy_selection [0, 1] (epsilon toy_tabular_f64) (sconst 0) = Inr (0, sconst 0)
   \<and> gamma toy_tabular_f64 = 4458563631096791 / 4503599627370496
   \<and> sarsa_q_new_f64 (gamma toy_tabular_f64) (q_table toy_tabular_f64) (PyFloat 1) False [0] 0
       = Inr 1
   \<and> qlearning_q_new_f64 (gamma toy_tabular_f64) (q_table toy_tabular_f64) (PyFloat 1) False [0]
       = Inr (8962163258467287 / 4503599627370496)
   \<and> 0 \<notin> set (q_max_actions [0, 1])"
proof -
  have g: "gamma toy_tabular_f64 = 4458563631096791 / 4503599627370496"
    and e: "epsilon toy_tabular_f64 = 3 / 10"
    and t: "q_table toy_tabular_f64 = \<lparr>shape = [2, 2], cells = (\<lambda>_. 0)([0, 1] := 1)\<rparr>"
    by (simp_all add: toy_tabular_f64_def toy_tabular_fields fl64_literals)
  have row: "q_row (q_table toy_tabular_f64) [0] = Inr [0, 1]"
    by (simp add: t q_row_def norm_index_def upt_0_2)
  have sel: "epsilon_greedy_selection [0, 1] (epsilon toy_tabular_f64) (sconst 0) = Inr (0, sconst 0)"
    by (simp add: e epsilon_greedy_selection_def np_random_def np_randint_def)
  have ar: "f64_add (fl64 1) (f64_mul (4458563631096791 / 4503599627370496) 0) = 1"
    "f64_add (fl64 1) (f64_mul (4458563631096791 / 4503599627370496) 1)
       = 8962163258467287 / 4503599627370496"
    by (simp_all add: f64_add_def f64_mul_def fl64_eval)
  from sarsa_vs_qlearning_target[OF row sel, of "PyFloat 1"] row sel show ?thesis
    by (simp add: g ar q_max_actions_def)
qed

text \<open>
  A next action that is not greedy can give equal targets all the same. With reward \<open>-1\<close>
  and the discount \<^verbatim>\<open>0.99\<close>, on the row \<^verbatim>\<open>[-99.99999999997789, -99.99999999997787]\<close> the
  exploring draw picks action 0, whose value is the smaller one; both products round to
  \<^verbatim>\<open>-98.9999999999781\<close> and both targets are \<^verbatim>\<open>-99.9999999999781\<close>.
\<close>

theorem non_greedy_action_with_equal_targets:
  "q_row (q_table near_tie_tabular) [0]
     = Inr [- 1759218604441211 / 17592186044416, - 7036874417764843 / 70368744177664]
   \<and> epsilon_greedy_selection
       [- 1759218604441211 / 17592186044416, - 7036874417764843 / 70368744177664]
       (epsilon near_tie_tabular) (sconst 0) = Inr (0, sconst 0)
   \<and> 0 \<notin> set (q_max_actions
                [- 1759218604441211 / 17592186044416, - 7036874417764843 / 70368744177664])
   \<and> gamma near_tie_tabular = 4458563631096791 / 4503599627370496
   \<and> f64_mul (gamma near_tie_tabular) (- 1759218604441211 / 17592186044416)
       = - 6966505673587195 / 70368744177664
   \<and> f64_mul (gamma near_tie_tabular) (- 7036874417764843 / 70368744177664)
       = - 6966505673587195 / 70368744177664
   \<and> sarsa_q_new_f64 (gamma near_tie_tabular) (q_table near_tie_tabular) (PyFloat (- 1)) False [0] 0
       = Inr (- 7036874417764859 / 70368744177664)
   \<and> qlearning_q_new_f64 (gamma near_tie_tabular) (q_table near_tie_tabular) (PyFloat (- 1)) False [0]
       = Inr (- 7036874417764859 / 70368744177664)"
proof -
  let ?q0 = "- 1759218604441211 / 17592186044416 :: real"
  let ?q1 = "- 7036874417764843 / 70368744177664 :: real"
  have g: "gamma near_tie_tabular = 4458563631096791 / 4503599627370496"
    and e: "epsilon near_tie_tabular = 3 / 10"
    by (simp_all add: near_tie_tabular_def toy_tabular_f64_def toy_tabular_fields fl64_literals)
  have t: "q_table near_tie_tabular
              = \<lparr>shape = [2, 2], cells = (\<lambda>_. 0)([0, 0] := ?q0, [0, 1] := ?q1)\<rparr>"
    by (simp add: near_tie_tabular_def) (simp add: fl64_eval)
  have row: "q_row (q_table near_tie_tabular) [0] = Inr [?q0, ?q1]"
    by (simp add: t q_row_def norm_index_def upt_0_2)
  have sel: "epsilon_greedy_selection [?q0, ?q1] (epsilon near_tie_tabular) (sconst 0)
               = Inr (0, sconst 0)"
    by (simp add: e epsilon_greedy_selection_def np_random_def np_randint_def)
  have ng: "0 \<notin> set (q_max_actions [?q0, ?q1])"
    by (simp add: q_max_actions_def upt_0_2)
  have p0: "f64_mul (gamma near_tie_tabular) ?q0 = - 6966505673587195 / 70368744177664"
    unfolding g by (simp add: f64_mul_def fl64_eval)
  have p1: "f64_mul (gamma near_tie_tabular) ?q1 = - 6966505673587195 / 70368744177664"
    unfolding g by (simp add: f64_mul_def fl64_eval)
  have tgt0: "f64_add (fl64 (- 1)) (f64_mul (4458563631096791 / 4503599627370496) ?q0)
                = - 7036874417764859 / 70368744177664"
    by (simp add: f64_add_def f64_mul_def fl64_eval)
  have tgt1: "f64_add (fl64 (- 1)) (f64_mul (4458563631096791 / 4503599627370496) ?q1)
                = - 7036874417764859 / 70368744177664"
    by (simp add: f64_add_def f64_mul_def fl64_eval)
  have sarsa: "sarsa_q_new_f64 (gamma near_tie_tabular) (q_table near_tie_tabular) (PyFloat (- 1)) False [0] 0
                 = Inr (- 7036874417764859 / 70368744177664)"
    unfolding g using tgt0 by (simp add: sarsa_q_new_f64_def row row_get_def)
  have ql: "qlearning_q_new_f64 (gamma near_tie_tabular) (q_table near_tie_tabular) (PyFloat (- 1)) False [0]
                 = Inr (- 7036874417764859 / 70368744177664)"
    unfolding g using tgt1 by (simp add: qlearning_q_new_f64_def row np_max_def)
  from row sel ng g p0 p1 sarsa ql show ?thesis by simp
qed


subsection \<open>Actor-critic\<close>

lemma ac_train_Inr:
  assumes "ac_train NA NC a state action_one_hot new_state reward dn = Inr a'"
  shows "\<exists>v_new value delta.
           row_get (predict NC (critic_model a) new_state) 0 = Inr v_new
         \<and> row_get (predict NC (critic_model a) state) 0 = Inr value
         \<and> delta = as_float reward + (1 - (if dn then 1 else 0)) * gamma a * v_new - value
         \<and> a' = a\<lparr>critic_optimizer := fst (apply_gradients NC (ac_critic_loss NC state delta)
                                              (critic_optimizer a) (critic_model a)),
                    critic_model := snd (apply_gradients NC (ac_critic_loss NC state delta)
                                              (critic_optimizer a) (critic_model a)),
                    actor_optimizer := fst (apply_gradients NA
                                              (ac_actor_loss NA state action_one_hot delta (I a))
                                              (actor_optimizer a) (actor_model a)),
                    actor_model := snd (apply_gradients NA
                                              (ac_actor_loss NA state action_one_hot delta (I a))
                                              (actor_optimizer a) (actor_model a))\<rparr>"
  using assms unfolding ac_train_def
  by (auto simp: attempt_Inr_iff Let_def split_beta)

lemma ac_body_Inr:
  assumes "ac_body E NA NC (a, state) = Inr r"
  shows "\<exists>action g' new_state reward dn e' action_one_hot a1 st'.
           ac_select_action NA a state = Inr (action, g')
         \<and> env_step E action (env a) = ((new_state, reward, dn), e')
         \<and> one_hot (policy_agent.action_size a) action = Inr action_one_hot
         \<and> ac_train NA NC (a\<lparr>env := e', np_rng := g'\<rparr>) state action_one_hot new_state reward dn = Inr a1
         \<and> stats_add_last (stats a1) reward = Inr st'
         \<and> r = (if dn then Break (a1\<lparr>stats := st'\<rparr>)
                 else Continue (a1\<lparr>stats := st', I := I a1 * gamma a1\<rparr>, new_state))"
  using assms unfolding ac_body_def
  by (cases "env_step E (fst (projr (ac_select_action NA a state))) (env a)")
     (auto simp: attempt_Inr_iff Let_def split_beta)

lemma ac_body_I:
  assumes "ac_body E NA NC (a, state) = Inr r"
  shows "gamma (flow_agent r) = gamma a"
    and "I (flow_agent r) = (case r of Continue _ \<Rightarrow> I a * gamma a | Break _ \<Rightarrow> I a)"
proof -
  from ac_body_Inr[OF assms] obtain action g' new_state reward dn e' action_one_hot a1 st' where
    tr: "ac_train NA NC (a\<lparr>env := e', np_rng := g'\<rparr>) state action_one_hot new_state reward dn = Inr a1"
    and r: "r = (if dn then Break (a1\<lparr>stats := st'\<rparr>)
                 else Continue (a1\<lparr>stats := st', I := I a1 * gamma a1\<rparr>, new_state))"
    by blast
  from ac_train_Inr[OF tr] have a1: "gamma a1 = gamma a" "I a1 = I a" by auto
  show "gamma (flow_agent r) = gamma a" using r a1 by (simp add: flow_agent_def)
  show "I (flow_agent r) = (case r of Continue _ \<Rightarrow> I a * gamma a | Break _ \<Rightarrow> I a)"
    using r a1 by (simp add: flow_agent_def)
qed

lemma ac_iterations_I:
  "iterations (ac_body E NA NC) k (a0, s0) = Some (ak, sk)
   \<Longrightarrow> I ak = I a0 * gamma a0 ^ k \<and> gamma ak = gamma a0"
proof (induction k arbitrary: a0 s0)
  case 0
  then show ?case by simp
next
  case (Suc k)
  from Suc.prems obtain a1 s1 where
    b: "ac_body E NA NC (a0, s0) = Inr (Continue (a1, s1))"
    and it: "iterations (ac_body E NA NC) k (a1, s1) = Some (ak, sk)"
    by (auto split: sum.splits flow.splits)
  from ac_body_I[OF b] have "gamma a1 = gamma a0" "I a1 = I a0 * gamma a0"
    by (simp_all add: flow_agent_def)
  with Suc.IH[OF it] show ?case by (simp add: mult.assoc)
qed

lemma one_hot_selects:
  assumes "one_hot n action = Inr oh" and "length p = n"
  shows "sum_list (map2 (*) oh p) = p ! action"
proof -
  from assms(1) have lt: "action < n" and oh: "oh = (replicate n 0)[action := 1]"
    by (auto simp: one_hot_def row_set_def split: if_splits)
  have key: "sum_list (map2 (*) ((replicate (length p) 0)[action := 1]) p) = p ! action"
    if "action < length p" for p :: "real list" and action
    using that
  proof (induction p arbitrary: action)
    case Nil
    then show ?case by simp
  next
    case (Cons x xs)
    have z: "sum_list (map2 (*) (replicate (length ys) 0) ys) = 0" for ys :: "real list"
      by (induction ys) auto
    show ?case
    proof (cases action)
      case 0
      then show ?thesis using z[of xs] by simp
    next
      case (Suc j)
      with Cons show ?thesis by simp
    qed
  qed
  from key[of action p] lt assms(2) show ?thesis unfolding oh by simp
qed

lemma ac_episode_start_fields:
  "I (fst (ac_episode_start E a)) = 1" "gamma (fst (ac_episode_start E a)) = gamma a"
  by (simp_all add: ac_episode_start_def split_beta)

text \<open>
  Claim C9 (the decay factor \<open>I\<close>): every episode starts with \<open>I = 1\<close>, whatever \<open>I\<close> was
  before. After \<open>k\<close> loop iterations of the episode that did not end it, \<open>I = gamma ^ k\<close>.
  The next iteration hands the actor's optimizer the loss
  \<open>- ln (pi(action | state)) * delta * I\<close> with this \<open>I = gamma ^ k\<close> and with
  \<open>delta = reward + (1 - done) * gamma * V(new_state) - V(state)\<close> from the critic as it was
  before the step, and only afterwards multiplies \<open>I\<close> by \<open>gamma\<close>, once, and only if the
  step was not terminal.
\<close>

theorem actor_critic_decay_factor:
  assumes "iterations (ac_body E NA NC) k (ac_episode_start E a) = Some (ak, sk)"
  shows "I (fst (ac_episode_start E a)) = 1
       \<and> I ak = gamma a ^ k
       \<and> (\<forall>r. ac_body E NA NC (ak, sk) = Inr r \<longrightarrow>
            (\<exists>action g' new_state reward dn e' action_one_hot v_new v delta.
                ac_select_action NA ak sk = Inr (action, g')
              \<and> env_step E action (env ak) = ((new_state, reward, dn), e')
              \<and> one_hot (policy_agent.action_size ak) action = Inr action_one_hot
              \<and> row_get (predict NC (critic_model ak) new_state) 0 = Inr v_new
              \<and> row_get (predict NC (critic_model ak) sk) 0 = Inr v
              \<and> delta = as_float reward + (1 - (if dn then 1 else 0)) * gamma a * v_new - v
              \<and> actor_model (flow_agent r)
                  = snd (apply_gradients NA
                           (ac_actor_loss NA sk action_one_hot delta (gamma a ^ k))
                           (actor_optimizer ak) (actor_model ak))
              \<and> (\<forall>w. length (predict NA w sk) = policy_agent.action_size ak \<longrightarrow>
                    ac_actor_loss NA sk action_one_hot delta (gamma a ^ k) w
                      = - ln (predict NA w sk ! action) * delta * gamma a ^ k)
              \<and> r = (if dn then Break (flow_agent r) else Continue (flow_agent r, new_state))
              \<and> I (flow_agent r) = (if dn then gamma a ^ k else gamma a ^ (k + 1))))"
proof -
  obtain a0 s0 where start: "ac_episode_start E a = (a0, s0)" by force
  with ac_episode_start_fields[of E a] have a0: "I a0 = 1" "gamma a0 = gamma a" by simp_all
  from ac_iterations_I[OF assms[unfolded start]] a0
  have ak: "I ak = gamma a ^ k" "gamma ak = gamma a" by simp_all
  have "\<exists>action g' new_state reward dn e' action_one_hot v_new v delta.
                ac_select_action NA ak sk = Inr (action, g')
              \<and> env_step E action (env ak) = ((new_state, reward, dn), e')
              \<and> one_hot (policy_agent.action_size ak) action = Inr action_one_hot
              \<and> row_get (predict NC (critic_model ak) new_state) 0 = Inr v_new
              \<and> row_get (predict NC (critic_model ak) sk) 0 = Inr v
              \<and> delta = as_float reward + (1 - (if dn then 1 else 0)) * gamma a * v_new - v
              \<and> actor_model (flow_agent r)
                  = snd (apply_gradients NA
                           (ac_actor_loss NA sk action_one_hot delta (gamma a ^ k))
                           (actor_optimizer ak) (actor_model ak))
              \<and> (\<forall>w. length (predict NA w sk) = policy_agent.action_size ak \<longrightarrow>
                    ac_actor_loss NA sk action_one_hot delta (gamma a ^ k) w
                      = - ln (predict NA w sk ! action) * delta * gamma a ^ k)
              \<and> r = (if dn then Break (flow_agent r) else Continue (flow_agent r, new_state))
              \<and> I (flow_agent r) = (if dn then gamma a ^ k else gamma a ^ (k + 1))"
    if body: "ac_body E NA NC (ak, sk) = Inr r" for r
  proof -
    from ac_body_Inr[OF body] obtain action g' new_state reward dn e' action_one_hot a1 st' where
      sel: "ac_select_action NA ak sk = Inr (action, g')"
      and step: "env_step E action (env ak) = ((new_state, reward, dn), e')"
      and oh: "one_hot (policy_agent.action_size ak) action = Inr action_one_hot"
      and tr: "ac_train NA NC (ak\<lparr>env := e', np_rng := g'\<rparr>) sk action_one_hot new_state reward dn = Inr a1"
      and r: "r = (if dn then Break (a1\<lparr>stats := st'\<rparr>)
                   else Continue (a1\<lparr>stats := st', I := I a1 * gamma a1\<rparr>, new_state))"
      by blast
    from ac_train_Inr[OF tr] obtain v_new v delta where
      vn: "row_get (predict NC (critic_model ak) new_state) 0 = Inr v_new"
      and v: "row_get (predict NC (critic_model ak) sk) 0 = Inr v"
      and d: "delta = as_float reward + (1 - (if dn then 1 else 0)) * gamma ak * v_new - v"
      and am: "actor_model a1 = snd (apply_gradients NA
                                   (ac_actor_loss NA sk action_one_hot delta (I ak))
                                   (actor_optimizer ak) (actor_model ak))"
      and keep: "I a1 = I ak" "gamma a1 = gamma ak"
      by auto
    have fa: "actor_model (flow_agent r) = actor_model a1"
      using r by (simp add: flow_agent_def)
    have loss: "ac_actor_loss NA sk action_one_hot delta (gamma a ^ k) w
                  = - ln (predict NA w sk ! action) * delta * gamma a ^ k"
      if "length (predict NA w sk) = policy_agent.action_size ak" for w
      using one_hot_selects[OF oh that] by (simp add: ac_actor_loss_def)
    have rr: "r = (if dn then Break (flow_agent r) else Continue (flow_agent r, new_state))"
      using r by (simp add: flow_agent_def)
    have ii: "I (flow_agent r) = (if dn then gamma a ^ k else gamma a ^ (k + 1))"
      using r keep ak by (simp add: flow_agent_def)
    show ?thesis
      using sel step oh vn v d am fa loss rr ii ak
      by (intro exI[of _ action] exI[of _ g'] exI[of _ new_state] exI[of _ reward] exI[of _ dn]
          exI[of _ e'] exI[of _ action_one_hot] exI[of _ v_new] exI[of _ v] exI[of _ delta]) simp
  qed
  with ac_episode_start_fields(1)[of E a] ak(1) show ?thesis by blast
qed

lemma toy_ac_start:
  "ac_episode_start toy_env toy_ac = (toy_ac\<lparr>stats := [0], env := 0, I := 1\<rparr>, [0])"
  by (simp add: ac_episode_start_def toy_ac_def ac_init_def toy_env_def stats_append_def)

lemma toy_ac_body:
  "ac_body toy_env toy_policy toy_critic (toy_ac\<lparr>stats := [0], env := 0, I := 1\<rparr>, [0])
     = Inr (Continue (toy_ac\<lparr>stats := [1], env := 1, I := 9 / 10,
                         actor_model := 1, actor_optimizer := 1,
                         critic_model := 1, critic_optimizer := 1\<rparr>, [1 / 2]))"
  by (simp add: ac_body_def ac_select_action_def np_choice_def np_random_def toy_ac_def
      ac_init_def toy_env_def toy_policy_def toy_critic_def one_hot_def row_set_def
      ac_train_def row_get_def stats_add_last_def Let_def)

theorem actor_critic_decay_factor_witness:
  "iterations (ac_body toy_env toy_policy toy_critic) 1 (ac_episode_start toy_env toy_ac)
     = Some (toy_ac\<lparr>stats := [1], env := 1, I := 9 / 10,
                         actor_model := 1, actor_optimizer := 1,
                         critic_model := 1, critic_optimizer := 1\<rparr>, [1 / 2])
   \<and> gamma toy_ac = 9 / 10
   \<and> I (toy_ac\<lparr>stats := [1], env := 1, I := 9 / 10,
                         actor_model := 1, actor_optimizer := 1,
                         critic_model := 1, critic_optimizer := 1\<rparr>) = gamma toy_ac ^ 1"
proof -
  have it: "iterations (ac_body toy_env toy_policy toy_critic) 1 (ac_episode_start toy_env toy_ac)
     = Some (toy_ac\<lparr>stats := [1], env := 1, I := 9 / 10,
                         actor_model := 1, actor_optimizer := 1,
                         critic_model := 1, critic_optimizer := 1\<rparr>, [1 / 2])"
    by (simp add: toy_ac_start toy_ac_body)
  from actor_critic_decay_factor[OF it] it show ?thesis
    by (simp add: toy_ac_def ac_init_def)
qed


subsection \<open>DQN training step\<close>

lemma sample_pool_props:
  "k \<le> length pool \<Longrightarrow> length (fst (sample_pool pool k g)) = k
     \<and> set (fst (sample_pool pool k g)) \<subseteq> set pool"
proof (induction k arbitrary: pool g)
  case 0
  then show ?case by simp
next
  case (Suc k)
  let ?j = "shd g mod length pool"
  let ?pool' = "butlast (pool[?j := last pool])"
  from Suc.prems have ne: "pool \<noteq> []" by auto
  then have j: "?j < length pool" by simp
  have sub: "set ?pool' \<subseteq> set pool"
  proof
    fix x assume "x \<in> set ?pool'"
    then have "x \<in> set (pool[?j := last pool])" by (rule in_set_butlastD)
    then have "x \<in> insert (last pool) (set pool)" using set_update_subset_insert by fast
    with ne show "x \<in> set pool" by auto
  qed
  have "k \<le> length ?pool'" using Suc.prems by simp
  from Suc.IH[OF this, of "stl g"] sub j show ?case
    by (auto simp: Let_def split_beta)
qed

lemma random_sample_Inr:
  assumes "random_sample population k g = Inr (minibatch, g')"
  shows "length minibatch = k \<and> set minibatch \<subseteq> set population"
  using assms sample_pool_props[of k population g]
  by (auto simp: random_sample_def split: if_splits)

lemma all_ok_Inr:
  "all_ok rs = Inr xs \<Longrightarrow> length xs = length rs \<and> (\<forall>i<length rs. rs ! i = Inr (xs ! i))"
proof (induction rs arbitrary: xs)
  case Nil
  then show ?case by simp
next
  case (Cons r rs)
  from Cons.prems obtain y ys where r: "r = Inr y" and ys: "all_ok rs = Inr ys" and xs: "xs = y # ys"
    by (auto simp: attempt_Inr_iff)
  from Cons.IH[OF ys] r xs show ?case by (auto simp: nth_Cons split: nat.splits)
qed

lemma squared_error_masked:
  assumes "action < length row"
  shows "squared_error (row[action := y]) row = (y - row ! action)\<^sup>2"
  using assms unfolding squared_error_def
proof (induction row arbitrary: action)
  case Nil
  then show ?case by simp
next
  case (Cons x xs)
  have z: "sum_list (map2 (\<lambda>t p. (t - p)\<^sup>2) ys ys) = 0" for ys :: "real list"
    by (induction ys) auto
  show ?case
  proof (cases action)
    case 0
    then show ?thesis using z[of xs] by simp
  next
    case (Suc j)
    with Cons show ?thesis by simp
  qed
qed

lemma dqn_target_row_Inr:
  assumes "dqn_target_row N a (state, action, reward, next_state, dn) = Inr row"
  shows "action < length (predict N (dqn_agent.model a) state)
       \<and> predict N (target_model a) next_state \<noteq> []
       \<and> row = (predict N (dqn_agent.model a) state)
                 [action := as_float reward + gamma a * (1 - (if dn then 1 else 0))
                              * Max (set (predict N (target_model a) next_state))]"
  using assms
  by (auto simp: dqn_target_row_def q_target_def np_max_def row_set_def attempt_Inr_iff
      split: if_splits)

lemma sum_list_map2_nth:
  "length xs = length ys \<Longrightarrow> sum_list (map2 f xs ys) = (\<Sum>i<length xs. f (xs ! i) (ys ! i))"
  by (simp add: sum_list_sum_nth atLeast0LessThan)

text \<open>
  Claim C5 (the DQN training step): whenever \<^verbatim>\<open>train\<close> samples a minibatch (the memory holds
  at least \<open>batch_size\<close> transitions) and does not raise, the minibatch consists of
  \<open>batch_size\<close> transitions of the memory; row \<open>i\<close> of the target array is the online
  network's prediction for the sampled state with only the entry of the taken action
  replaced by \<open>reward + gamma * (1 - done) * max Q_target(next_state)\<close>, computed with the
  target network; the loss handed to the optimizer is, as a function of the online weights,
  the squared error between targets and predictions summed over all action entries and
  averaged over the minibatch (at the current weights only the replaced entries
  contribute); and the step changes the online weights, the optimizer and the sampling
  generator, nothing else: the target network stays as it is.
\<close>

theorem dqn_train_targets_and_loss:
  assumes train: "dqn_train N a = Inr a'" and enough: "batch_size a \<le> length (memory a)"
  shows "\<exists>minibatch pg' target.
      random_sample (memory a) (batch_size a) (py_rng a) = Inr (minibatch, pg')
    \<and> length minibatch = batch_size a \<and> set minibatch \<subseteq> set (memory a)
    \<and> length target = length minibatch
    \<and> (\<forall>i<length minibatch. \<exists>state action reward next_state dn y.
          minibatch ! i = (state, action, reward, next_state, dn)
        \<and> action < length (predict N (dqn_agent.model a) state)
        \<and> predict N (target_model a) next_state \<noteq> []
        \<and> y = as_float reward + gamma a * (1 - (if dn then 1 else 0))
                  * Max (set (predict N (target_model a) next_state))
        \<and> target ! i = (predict N (dqn_agent.model a) state)[action := y]
        \<and> squared_error (target ! i) (predict N (dqn_agent.model a) state)
            = (y - predict N (dqn_agent.model a) state ! action)\<^sup>2)
    \<and> (\<forall>w. dqn_loss N (batch_size a) (map fst minibatch) target w
            = 1 / real (batch_size a)
              * (\<Sum>i<length minibatch. squared_error (target ! i) (predict N w (fst (minibatch ! i)))))
    \<and> a' = a\<lparr>py_rng := pg',
              dqn_agent.optimizer := fst (apply_gradients N
                  (dqn_loss N (batch_size a) (map fst minibatch) target)
                  (dqn_agent.optimizer a) (dqn_agent.model a)),
              dqn_agent.model := snd (apply_gradients N
                  (dqn_loss N (batch_size a) (map fst minibatch) target)
                  (dqn_agent.optimizer a) (dqn_agent.model a))\<rparr>
    \<and> target_model a' = target_model a"
proof -
  from train enough obtain minibatch pg' target where
    rs: "random_sample (memory a) (batch_size a) (py_rng a) = Inr (minibatch, pg')"
    and tg: "dqn_targets N a minibatch = Inr target"
    and a': "a' = a\<lparr>py_rng := pg',
              dqn_agent.optimizer := fst (apply_gradients N
                  (dqn_loss N (batch_size a) (map fst minibatch) target)
                  (dqn_agent.optimizer a) (dqn_agent.model a)),
              dqn_agent.model := snd (apply_gradients N
                  (dqn_loss N (batch_size a) (map fst minibatch) target)
                  (dqn_agent.optimizer a) (dqn_agent.model a))\<rparr>"
    unfolding dqn_train_def by (auto simp: attempt_Inr_iff Let_def split_beta)
  note smp = random_sample_Inr[OF rs]
  from all_ok_Inr[OF tg[unfolded dqn_targets_def]]
  have len: "length target = length minibatch"
    and rows: "\<And>i. i < length minibatch \<Longrightarrow> dqn_target_row N a (minibatch ! i) = Inr (target ! i)"
    by simp_all
  have row: "\<exists>state action reward next_state dn y.
          minibatch ! i = (state, action, reward, next_state, dn)
        \<and> action < length (predict N (dqn_agent.model a) state)
        \<and> predict N (target_model a) next_state \<noteq> []
        \<and> y = as_float reward + gamma a * (1 - (if dn then 1 else 0))
                  * Max (set (predict N (target_model a) next_state))
        \<and> target ! i = (predict N (dqn_agent.model a) state)[action := y]
        \<and> squared_error (target ! i) (predict N (dqn_agent.model a) state)
            = (y - predict N (dqn_agent.model a) state ! action)\<^sup>2"
    if i: "i < length minibatch" for i
  proof -
    obtain state action reward next_state dn where
      m: "minibatch ! i = (state, action, reward, next_state, dn)"
      by (cases "minibatch ! i") auto
    from dqn_target_row_Inr[OF rows[OF i, unfolded m]] squared_error_masked m
    show ?thesis by auto
  qed
  have loss: "dqn_loss N (batch_size a) (map fst minibatch) target w
            = 1 / real (batch_size a)
              * (\<Sum>i<length minibatch. squared_error (target ! i) (predict N w (fst (minibatch ! i))))"
    for w
    unfolding dqn_loss_def using len
    by (subst sum_list_map2_nth) simp_all
  have tm: "target_model a' = target_model a" by (subst a') simp
  from rs smp len row loss a' tm show ?thesis by blast
qed

lemma toy_dqn_train:
  "dqn_train toy_net (toy_dqn\<lparr>memory := [([0], 0, PyFloat 1, [1 / 2], False)], target_model := 5\<rparr>)
     = Inr (toy_dqn\<lparr>memory := [([0], 0, PyFloat 1, [1 / 2], False)], target_model := 5,
                     dqn_agent.optimizer := 1, dqn_agent.model := 1\<rparr>)"
  by (simp add: dqn_train_def toy_dqn_def dqn_init_def toy_net_def random_sample_def
      dqn_targets_def dqn_target_row_def q_target_def np_max_def row_set_def Let_def)

theorem dqn_train_targets_and_loss_witness:
  "dqn_train toy_net (toy_dqn\<lparr>memory := [([0], 0, PyFloat 1, [1 / 2], False)], target_model := 5\<rparr>)
     = Inr (toy_dqn\<lparr>memory := [([0], 0, PyFloat 1, [1 / 2], False)], target_model := 5,
                     dqn_agent.optimizer := 1, dqn_agent.model := 1\<rparr>)
   \<and> batch_size (toy_dqn\<lparr>memory := [([0], 0, PyFloat 1, [1 / 2], False)], target_model := 5\<rparr>)
       \<le> length (memory (toy_dqn\<lparr>memory := [([0], 0, PyFloat 1, [1 / 2], False)], target_model := 5\<rparr>))
   \<and> dqn_targets toy_net (toy_dqn\<lparr>memory := [([0], 0, PyFloat 1, [1 / 2], False)], target_model := 5\<rparr>)
         [([0], 0, PyFloat 1, [1 / 2], False)] = Inr [[119 / 20, 0]]
   \<and> dqn_loss toy_net 1 [[0]] [[119 / 20, 0]] 0 = (119 / 20)\<^sup>2
   \<and> target_model (toy_dqn\<lparr>memory := [([0], 0, PyFloat 1, [1 / 2], False)], target_model := 5,
                     dqn_agent.optimizer := 1, dqn_agent.model := 1\<rparr>) = 5"
proof -
  have enough: "batch_size (toy_dqn\<lparr>memory := [([0], 0, PyFloat 1, [1 / 2], False)], target_model := 5\<rparr>)
       \<le> length (memory (toy_dqn\<lparr>memory := [([0], 0, PyFloat 1, [1 / 2], False)], target_model := 5\<rparr>))"
    by (simp add: toy_dqn_def dqn_init_def)
  from dqn_train_targets_and_loss[OF toy_dqn_train enough] toy_dqn_train enough show ?thesis
    by (simp add: toy_dqn_def dqn_init_def toy_net_def dqn_targets_def dqn_target_row_def
        q_target_def np_max_def row_set_def dqn_loss_def squared_error_def)
qed


subsection \<open>Evaluation rollouts\<close>

lemma while_true_Continue:
  "body s = Inr (Continue s') \<Longrightarrow> while_true body s = while_true body s'"
  by (subst while_true.simps) simp

lemma while_true_Break:
  "body s = Inr (Break r) \<Longrightarrow> while_true body s = Some (Inr r)"
  by (subst while_true.simps) simp

lemma tabular_act_frame:
  assumes "tabular_act E a = Some (Inr a')"
  shows "a' = a\<lparr>env := env a', np_rng := np_rng a'\<rparr>"
proof -
  let ?P = "\<lambda>b. b\<lparr>env := env a, np_rng := np_rng a\<rparr> = a"
  obtain state e1 where r: "env_reset E (env a) = (state, e1)" by force
  from assms r obtain a1 where
    loop: "while_true (tabular_act_body E) (a\<lparr>env := e1\<rparr>, state, False) = Some (Inr a1)"
    and a': "a' = a1\<lparr>env := env_close E (env a1)\<rparr>"
    by (auto simp: tabular_act_def and_then_Some_Inr_iff)
  have "?P a1"
  proof (rule while_true_rule[OF loop, where P = "\<lambda>s. ?P (fst s)"])
    show "?P (fst (a\<lparr>env := e1\<rparr>, state, False))" by simp
  next
    fix s s' assume "?P (fst s)" and "tabular_act_body E s = Inr (Continue s')"
    then show "?P (fst s')"
      unfolding tabular_act_body_def
      by (auto simp: attempt_Inr_iff Let_def split_beta split: if_splits)
  next
    fix s r assume "?P (fst s)" and "tabular_act_body E s = Inr (Break r)"
    then show "?P r"
      unfolding tabular_act_body_def
      by (auto simp: attempt_Inr_iff Let_def split_beta split: if_splits)
  qed
  then have "a = a1\<lparr>env := env a, np_rng := np_rng a\<rparr>" by simp
  then have "a\<lparr>env := env a', np_rng := np_rng a'\<rparr>
               = a1\<lparr>env := env a, np_rng := np_rng a\<rparr>\<lparr>env := env a', np_rng := np_rng a'\<rparr>"
    by simp
  also have "\<dots> = a'" using a' by simp
  finally show ?thesis by simp
qed

lemma pg_act_frame:
  assumes "pg_act E N a = Some (Inr (a', tot))"
  shows "a' = a\<lparr>env := env a', np_rng := np_rng a'\<rparr>"
proof -
  let ?P = "\<lambda>b. b\<lparr>env := env a, np_rng := np_rng a\<rparr> = a"
  obtain state e1 where r: "env_reset E (env a) = (state, e1)" by force
  from assms r obtain a1 t1 where
    loop: "while_true (pg_act_body E N) (a\<lparr>env := e1\<rparr>, state, False, 0) = Some (Inr (a1, t1))"
    and a': "a' = a1\<lparr>env := env_close E (env a1)\<rparr>"
    by (auto simp: pg_act_def and_then_Some_Inr_iff)
  have "?P (fst (a1, t1))"
  proof (rule while_true_rule[OF loop, where P = "\<lambda>s. ?P (fst s)"])
    show "?P (fst (a\<lparr>env := e1\<rparr>, state, False, 0::real))" by simp
  next
    fix s s' assume "?P (fst s)" and "pg_act_body E N s = Inr (Continue s')"
    then show "?P (fst s')"
      unfolding pg_act_body_def
      by (auto simp: attempt_Inr_iff Let_def split_beta split: if_splits)
  next
    fix s r assume "?P (fst s)" and "pg_act_body E N s = Inr (Break r)"
    then show "?P (fst r)"
      unfolding pg_act_body_def
      by (auto simp: attempt_Inr_iff Let_def split_beta split: if_splits)
  qed
  then have "a = a1\<lparr>env := env a, np_rng := np_rng a\<rparr>" by simp
  then have "a\<lparr>env := env a', np_rng := np_rng a'\<rparr>
               = a1\<lparr>env := env a, np_rng := np_rng a\<rparr>\<lparr>env := env a', np_rng := np_rng a'\<rparr>"
    by simp
  also have "\<dots> = a'" using a' by simp
  finally show ?thesis by simp
qed

lemma ac_act_frame:
  assumes "ac_act E N a = Some (Inr (a', tot))"
  shows "a' = a\<lparr>env := env a', np_rng := np_rng a'\<rparr>"
proof -
  let ?P = "\<lambda>b. b\<lparr>env := env a, np_rng := np_rng a\<rparr> = a"
  obtain state e1 where r: "env_reset E (env a) = (state, e1)" by force
  from assms r obtain a1 t1 where
    loop: "while_true (ac_act_body E N) (a\<lparr>env := e1\<rparr>, state, False, 0) = Some (Inr (a1, t1))"
    and a': "a' = a1\<lparr>env := env_close E (env a1)\<rparr>"
    by (auto simp: ac_act_def and_then_Some_Inr_iff)
  have "?P (fst (a1, t1))"
  proof (rule while_true_rule[OF loop, where P = "\<lambda>s. ?P (fst s)"])
    show "?P (fst (a\<lparr>env := e1\<rparr>, state, False, 0::real))" by simp
  next
    fix s s' assume "?P (fst s)" and "ac_act_body E N s = Inr (Continue s')"
    then show "?P (fst s')"
      unfolding ac_act_body_def
      by (auto simp: attempt_Inr_iff Let_def split_beta split: if_splits)
  next
    fix s r assume "?P (fst s)" and "ac_act_body E N s = Inr (Break r)"
    then show "?P (fst r)"
      unfolding ac_act_body_def
      by (auto simp: attempt_Inr_iff Let_def split_beta split: if_splits)
  qed
  then have "a = a1\<lparr>env := env a, np_rng := np_rng a\<rparr>" by simp
  then have "a\<lparr>env := env a', np_rng := np_rng a'\<rparr>
               = a1\<lparr>env := env a, np_rng := np_rng a\<rparr>\<lparr>env := env a', np_rng := np_rng a'\<rparr>"
    by simp
  also have "\<dots> = a'" using a' by simp
  finally show ?thesis by simp
qed

lemma greedy_selection_maximizes:
  assumes "epsilon_greedy_selection q 0 g = Inr (action, g')"
  shows "action \<in> set (q_max_actions q)"
proof -
  have "\<not> fst (np_random g) < 0" using np_random_range[of g] by simp
  with assms have ne: "q \<noteq> []"
    and act: "action = q_max_actions q ! (shd (stl g) mod length (q_max_actions q))"
    by (auto simp: epsilon_greedy_selection_def np_random_def np_randint_def np_max_def
        attempt_Inr_iff Let_def split: if_splits)
  have "shd (stl g) mod length (q_max_actions q) < length (q_max_actions q)"
    using q_max_actions_nonempty[OF ne] by simp
  with act show ?thesis by simp
qed

lemma dqn_greedy_selection:
  assumes "dqn_select_action N a state 0 = Inr (action, g')"
  shows "action = hd (q_max_actions (predict N (dqn_agent.model a) state))"
proof -
  have "\<not> fst (np_random (np_rng a)) < 0" using np_random_range[of "np_rng a"] by simp
  with assms show ?thesis
    by (auto simp: dqn_select_action_def np_argmax_def np_random_def attempt_Inr_iff Let_def
        split: if_splits)
qed

lemma sarsa_episode_rollout:
  assumes "sarsa_episode E episode a = Some (Inr a')"
  shows "\<exists>s0 a2. while_true (sarsa_body E) s0 = Some (Inr a2)
           \<and> a' = a2\<lparr>env := env a', np_rng := np_rng a'\<rparr>"
proof -
  from assms obtain s0 a2 where
    loop: "while_true (sarsa_body E) s0 = Some (Inr a2)"
    and rest: "(if 0 < to_show a2 \<and> int episode mod to_show a2 = 0 then tabular_act E a2
                else Some (Inr a2)) = Some (Inr a')"
    unfolding sarsa_episode_def
    by (auto simp: and_then_Some_Inr_iff Let_def split_beta split: sum.splits)
  have "a' = a2\<lparr>env := env a', np_rng := np_rng a'\<rparr>"
  proof (cases "0 < to_show a2 \<and> int episode mod to_show a2 = 0")
    case True
    with rest show ?thesis using tabular_act_frame by auto
  next
    case False
    with rest show ?thesis by auto
  qed
  with loop show ?thesis by blast
qed

lemma qlearning_episode_rollout:
  assumes "qlearning_episode E episode a = Some (Inr a')"
  shows "\<exists>s0 a2. while_true (qlearning_body E) s0 = Some (Inr a2)
           \<and> a' = a2\<lparr>env := env a', np_rng := np_rng a'\<rparr>"
proof -
  from assms obtain s0 a2 where
    loop: "while_true (qlearning_body E) s0 = Some (Inr a2)"
    and rest: "(if 0 < to_show a2 \<and> int episode mod to_show a2 = 0 then tabular_act E a2
                else Some (Inr a2)) = Some (Inr a')"
    unfolding qlearning_episode_def
    by (auto simp: and_then_Some_Inr_iff Let_def split_beta split: sum.splits)
  have "a' = a2\<lparr>env := env a', np_rng := np_rng a'\<rparr>"
  proof (cases "0 < to_show a2 \<and> int episode mod to_show a2 = 0")
    case True
    with rest show ?thesis using tabular_act_frame by auto
  next
    case False
    with rest show ?thesis by auto
  qed
  with loop show ?thesis by blast
qed

lemma dqn_episode_rollout:
  assumes "dqn_episode E N episode a = Some (Inr a')"
  shows "\<exists>s0 a2. while_true (dqn_body E N) s0 = Some (Inr a2)
           \<and> a' = a2\<lparr>env := env a', np_rng := np_rng a'\<rparr>"
proof -
  from assms obtain s0 a2 where
    loop: "while_true (dqn_body E N) s0 = Some (Inr a2)"
    and rest: "(if 0 < to_show a2 \<and> int episode mod to_show a2 = 0
                then and_then (dqn_act E N a2) (\<lambda>(a3, total_reward). Some (Inr a3))
                else Some (Inr a2)) = Some (Inr a')"
    unfolding dqn_episode_def
    by (auto simp: and_then_Some_Inr_iff Let_def split_beta)
  have "a' = a2\<lparr>env := env a', np_rng := np_rng a'\<rparr>"
  proof (cases "0 < to_show a2 \<and> int episode mod to_show a2 = 0")
    case True
    with rest obtain tot where "dqn_act E N a2 = Some (Inr (a', tot))"
      by (auto simp: and_then_Some_Inr_iff)
    then show ?thesis by (rule dqn_act_frame)
  next
    case False
    with rest show ?thesis by auto
  qed
  with loop show ?thesis by blast
qed

text \<open>
  Claim C10 (rollouts leave the learning state alone): whenever \<^verbatim>\<open>act\<close> returns, the agent
  is the agent it was called on except for the environment's state and the random
  generator. In particular the tabular agents' Q-table, the DQN agent's online and target
  weights, optimizer, memory and synchronization counter, the policy-gradient agents'
  weights, and the episode statistics are unchanged. This holds for every agent state,
  hence also for the rollouts that \<^verbatim>\<open>execute\<close> starts between episodes (lemmas
  \<open>sarsa_episode_rollout\<close>, \<open>qlearning_episode_rollout\<close>, \<open>dqn_episode_rollout\<close>). The value-based
  rollouts select with \<open>epsilon = 0\<close>, which always yields a maximizing action: any of them
  for the tabular agents, the first for DQN.
\<close>

theorem act_leaves_learning_state:
  "(tabular_act E a = Some (Inr a') \<longrightarrow>
      a' = a\<lparr>env := env a', np_rng := np_rng a'\<rparr>
      \<and> q_table a' = q_table a \<and> stats a' = stats a)
   \<and> (dqn_act E N b = Some (Inr (b', total_b)) \<longrightarrow>
      b' = b\<lparr>env := env b', np_rng := np_rng b'\<rparr>
      \<and> dqn_agent.model b' = dqn_agent.model b \<and> target_model b' = target_model b
      \<and> dqn_agent.optimizer b' = dqn_agent.optimizer b \<and> memory b' = memory b
      \<and> target_update_counter b' = target_update_counter b \<and> stats b' = stats b)
   \<and> (pg_act E NP c = Some (Inr (c', total_c)) \<longrightarrow>
      c' = c\<lparr>env := env c', np_rng := np_rng c'\<rparr>
      \<and> pg_agent.model c' = pg_agent.model c \<and> pg_agent.optimizer c' = pg_agent.optimizer c
      \<and> memory_rewards c' = memory_rewards c \<and> stats c' = stats c)
   \<and> (ac_act E NA d = Some (Inr (d', total_d)) \<longrightarrow>
      d' = d\<lparr>env := env d', np_rng := np_rng d'\<rparr>
      \<and> actor_model d' = actor_model d \<and> critic_model d' = critic_model d
      \<and> I d' = I d \<and> stats d' = stats d)
   \<and> (epsilon_greedy_selection q 0 g = Inr (action, g') \<longrightarrow> action \<in> set (q_max_actions q))
   \<and> (dqn_select_action N b state 0 = Inr (action_b, g_b) \<longrightarrow>
      action_b = hd (q_max_actions (predict N (dqn_agent.model b) state)))"
proof -
  have t: "q_table a' = q_table a \<and> stats a' = stats a"
    if "a' = a\<lparr>env := env a', np_rng := np_rng a'\<rparr>"
    by (intro conjI; (subst that, simp))
  have dq: "dqn_agent.model b' = dqn_agent.model b \<and> target_model b' = target_model b
      \<and> dqn_agent.optimizer b' = dqn_agent.optimizer b \<and> memory b' = memory b
      \<and> target_update_counter b' = target_update_counter b \<and> stats b' = stats b"
    if "dqn_act E N b = Some (Inr (b', total_b))"
    using dqn_act_keeps[OF that] by simp
  have pg: "pg_agent.model c' = pg_agent.model c \<and> pg_agent.optimizer c' = pg_agent.optimizer c
      \<and> memory_rewards c' = memory_rewards c \<and> stats c' = stats c"
    if "c' = c\<lparr>env := env c', np_rng := np_rng c'\<rparr>"
    by (intro conjI; (subst that, simp))
  have ac: "actor_model d' = actor_model d \<and> critic_model d' = critic_model d
      \<and> I d' = I d \<and> stats d' = stats d"
    if "d' = d\<lparr>env := env d', np_rng := np_rng d'\<rparr>"
    by (intro conjI; (subst that, simp))
  show ?thesis
    using tabular_act_frame[of E a a'] t dqn_act_frame[of E N b b' total_b] dq
      pg_act_frame[of E NP c c' total_c] pg ac_act_frame[of E NA d d' total_d] ac
      greedy_selection_maximizes[of q g action g'] dqn_greedy_selection[of N b state action_b g_b]
    by blast
qed

lemma toy_tabular_act:
  "tabular_act toy_env toy_tabular = Some (Inr (toy_tabular\<lparr>env := 2\<rparr>))"
proof -
  have b1: "tabular_act_body toy_env (toy_tabular\<lparr>env := 0\<rparr>, [0], False)
              = Inr (Continue (toy_tabular\<lparr>env := 1\<rparr>, [1 / 2], False))"
    by (simp add: tabular_act_body_def toy_tabular_fields toy_env_def get_discrete_state_def
        trunc_def q_row_def norm_index_def epsilon_greedy_selection_def np_random_def
        np_randint_def np_max_def q_max_actions_def upt_0_2 Let_def)
  have b2: "tabular_act_body toy_env (toy_tabular\<lparr>env := 1\<rparr>, [1 / 2], False)
              = Inr (Continue (toy_tabular\<lparr>env := 2\<rparr>, [1 / 2], True))"
    by (simp add: tabular_act_body_def toy_tabular_fields toy_env_def get_discrete_state_def
        trunc_def q_row_def norm_index_def epsilon_greedy_selection_def np_random_def
        np_randint_def np_max_def q_max_actions_def upt_0_2 Let_def)
  have b3: "tabular_act_body toy_env (toy_tabular\<lparr>env := 2\<rparr>, [1 / 2], True)
              = Inr (Break (toy_tabular\<lparr>env := 2\<rparr>))"
    by (simp add: tabular_act_body_def)
  have "while_true (tabular_act_body toy_env) (toy_tabular\<lparr>env := 0\<rparr>, [0], False)
          = while_true (tabular_act_body toy_env) (toy_tabular\<lparr>env := 1\<rparr>, [1 / 2], False)"
    by (rule while_true_Continue) (rule b1)
  also have "\<dots> = while_true (tabular_act_body toy_env) (toy_tabular\<lparr>env := 2\<rparr>, [1 / 2], True)"
    by (rule while_true_Continue) (rule b2)
  also have "\<dots> = Some (Inr (toy_tabular\<lparr>env := 2\<rparr>))"
    by (rule while_true_Break) (rule b3)
  finally have "while_true (tabular_act_body toy_env) (toy_tabular\<lparr>env := 0\<rparr>, [0], False)
          = Some (Inr (toy_tabular\<lparr>env := 2\<rparr>))" .
  then show ?thesis
    by (simp add: tabular_act_def toy_env_def)
qed

lemma toy_dqn_act:
  "dqn_act toy_env toy_net toy_dqn = Some (Inr (toy_dqn\<lparr>env := 2\<rparr>, 2))"
proof -
  have b1: "dqn_act_body toy_env toy_net (toy_dqn\<lparr>env := 0\<rparr>, [0], False, 0)
              = Inr (Continue (toy_dqn\<lparr>env := 1\<rparr>, [1 / 2], False, 1))"
    by (simp add: dqn_act_body_def dqn_select_action_def np_random_def np_argmax_def
        q_max_actions_def upt_0_2 toy_defs Let_def)
  have b2: "dqn_act_body toy_env toy_net (toy_dqn\<lparr>env := 1\<rparr>, [1 / 2], False, 1)
              = Inr (Continue (toy_dqn\<lparr>env := 2\<rparr>, [1 / 2], True, 2))"
    by (simp add: dqn_act_body_def dqn_select_action_def np_random_def np_argmax_def
        q_max_actions_def upt_0_2 toy_defs Let_def)
  have b3: "dqn_act_body toy_env toy_net (toy_dqn\<lparr>env := 2\<rparr>, [1 / 2], True, 2)
              = Inr (Break (toy_dqn\<lparr>env := 2\<rparr>, 2))"
    by (simp add: dqn_act_body_def)
  have "while_true (dqn_act_body toy_env toy_net) (toy_dqn\<lparr>env := 0\<rparr>, [0], False, 0)
          = while_true (dqn_act_body toy_env toy_net) (toy_dqn\<lparr>env := 1\<rparr>, [1 / 2], False, 1)"
    by (rule while_true_Continue) (rule b1)
  also have "\<dots> = while_true (dqn_act_body toy_env toy_net) (toy_dqn\<lparr>env := 2\<rparr>, [1 / 2], True, 2)"
    by (rule while_true_Continue) (rule b2)
  also have "\<dots> = Some (Inr (toy_dqn\<lparr>env := 2\<rparr>, 2))"
    by (rule while_true_Break) (rule b3)
  finally have "while_true (dqn_act_body toy_env toy_net) (toy_dqn\<lparr>env := 0\<rparr>, [0], False, 0)
          = Some (Inr (toy_dqn\<lparr>env := 2\<rparr>, 2))" .
  then show ?thesis
    by (simp add: dqn_act_def toy_env_def)
qed

lemma toy_pg_act:
  "pg_act toy_env toy_policy toy_pg = Some (Inr (toy_pg\<lparr>env := 2\<rparr>, 2))"
proof -
  have b1: "pg_act_body toy_env toy_policy (toy_pg\<lparr>env := 0\<rparr>, [0], False, 0)
              = Inr (Continue (toy_pg\<lparr>env := 1\<rparr>, [1 / 2], False, 1))"
    by (simp add: pg_act_body_def pg_select_action_def np_choice_def np_random_def
        toy_pg_def pg_init_def toy_env_def toy_policy_def Let_def)
  have b2: "pg_act_body toy_env toy_policy (toy_pg\<lparr>env := 1\<rparr>, [1 / 2], False, 1)
              = Inr (Continue (toy_pg\<lparr>env := 2\<rparr>, [1 / 2], True, 2))"
    by (simp add: pg_act_body_def pg_select_action_def np_choice_def np_random_def
        toy_pg_def pg_init_def toy_env_def toy_policy_def Let_def)
  have b3: "pg_act_body toy_env toy_policy (toy_pg\<lparr>env := 2\<rparr>, [1 / 2], True, 2)
              = Inr (Break (toy_pg\<lparr>env := 2\<rparr>, 2))"
    by (simp add: pg_act_body_def)
  have "while_true (pg_act_body toy_env toy_policy) (toy_pg\<lparr>env := 0\<rparr>, [0], False, 0)
          = while_true (pg_act_body toy_env toy_policy) (toy_pg\<lparr>env := 1\<rparr>, [1 / 2], False, 1)"
    by (rule while_true_Continue) (rule b1)
  also have "\<dots> = while_true (pg_act_body toy_env toy_policy) (toy_pg\<lparr>env := 2\<rparr>, [1 / 2], True, 2)"
    by (rule while_true_Continue) (rule b2)
  also have "\<dots> = Some (Inr (toy_pg\<lparr>env := 2\<rparr>, 2))"
    by (rule while_true_Break) (rule b3)
  finally have "while_true (pg_act_body toy_env toy_policy) (toy_pg\<lparr>env := 0\<rparr>, [0], False, 0)
          = Some (Inr (toy_pg\<lparr>env := 2\<rparr>, 2))" .
  then show ?thesis
    by (simp add: pg_act_def toy_env_def)
qed

lemma toy_ac_act:
  "ac_act toy_env toy_policy toy_ac = Some (Inr (toy_ac\<lparr>env := 2\<rparr>, 2))"
proof -
  have b1: "ac_act_body toy_env toy_policy (toy_ac\<lparr>env := 0\<rparr>, [0], False, 0)
              = Inr (Continue (toy_ac\<lparr>env := 1\<rparr>, [1 / 2], False, 1))"
    by (simp add: ac_act_body_def ac_select_action_def np_choice_def np_random_def
        toy_ac_def ac_init_def toy_env_def toy_policy_def Let_def)
  have b2: "ac_act_body toy_env toy_policy (toy_ac\<lparr>env := 1\<rparr>, [1 / 2], False, 1)
              = Inr (Continue (toy_ac\<lparr>env := 2\<rparr>, [1 / 2], True, 2))"
    by (simp add: ac_act_body_def ac_select_action_def np_choice_def np_random_def
        toy_ac_def ac_init_def toy_env_def toy_policy_def Let_def)
  have b3: "ac_act_body toy_env toy_policy (toy_ac\<lparr>env := 2\<rparr>, [1 / 2], True, 2)
              = Inr (Break (toy_ac\<lparr>env := 2\<rparr>, 2))"
    by (simp add: ac_act_body_def)
  have "while_true (ac_act_body toy_env toy_policy) (toy_ac\<lparr>env := 0\<rparr>, [0], False, 0)
          = while_true (ac_act_body toy_env toy_policy) (toy_ac\<lparr>env := 1\<rparr>, [1 / 2], False, 1)"
    by (rule while_true_Continue) (rule b1)
  also have "\<dots> = while_true (ac_act_body toy_env toy_policy) (toy_ac\<lparr>env := 2\<rparr>, [1 / 2], True, 2)"
    by (rule while_true_Continue) (rule b2)
  also have "\<dots> = Some (Inr (toy_ac\<lparr>env := 2\<rparr>, 2))"
    by (rule while_true_Break) (rule b3)
  finally have "while_true (ac_act_body toy_env toy_policy) (toy_ac\<lparr>env := 0\<rparr>, [0], False, 0)
          = Some (Inr (toy_ac\<lparr>env := 2\<rparr>, 2))" .
  then show ?thesis
    by (simp add: ac_act_def toy_env_def)
qed

theorem act_leaves_learning_state_witness:
  "tabular_act toy_env toy_tabular = Some (Inr (toy_tabular\<lparr>env := 2\<rparr>))
   \<and> q_table (toy_tabular\<lparr>env := 2\<rparr>) = q_table toy_tabular
   \<and> dqn_act toy_env toy_net toy_dqn = Some (Inr (toy_dqn\<lparr>env := 2\<rparr>, 2))
   \<and> memory (toy_dqn\<lparr>env := 2\<rparr>) = memory toy_dqn
   \<and> pg_act toy_env toy_policy toy_pg = Some (Inr (toy_pg\<lparr>env := 2\<rparr>, 2))
   \<and> pg_agent.model (toy_pg\<lparr>env := 2\<rparr>) = pg_agent.model toy_pg
   \<and> ac_act toy_env toy_policy toy_ac = Some (Inr (toy_ac\<lparr>env := 2\<rparr>, 2))
   \<and> actor_model (toy_ac\<lparr>env := 2\<rparr>) = actor_model toy_ac
   \<and> epsilon_greedy_selection [0, 1] 0 (sconst 0) = Inr (1, sconst 0)
   \<and> 1 \<in> set (q_max_actions [0, 1])
   \<and> dqn_select_action toy_net toy_dqn [0] 0 = Inr (0, sconst 0)"
proof -
  have sel: "epsilon_greedy_selection [0, 1] 0 (sconst 0) = Inr (1, sconst 0)"
    by (simp add: epsilon_greedy_selection_def np_random_def np_randint_def np_max_def
        q_max_actions_def upt_0_2)
  have dsel: "dqn_select_action toy_net toy_dqn [0] 0 = Inr (0, sconst 0)"
    by (simp add: dqn_select_action_def np_random_def np_argmax_def q_max_actions_def upt_0_2
        toy_defs)
  from act_leaves_learning_state[of toy_env toy_tabular "toy_tabular\<lparr>env := 2\<rparr>"
      toy_net toy_dqn "toy_dqn\<lparr>env := 2\<rparr>" 2
      toy_policy toy_pg "toy_pg\<lparr>env := 2\<rparr>" 2
      toy_policy toy_ac "toy_ac\<lparr>env := 2\<rparr>" 2
      "[0, 1]" "sconst 0" 1 "sconst 0" "[0]" 0 "sconst 0"]
    toy_tabular_act toy_dqn_act toy_pg_act toy_ac_act sel dsel
  show ?thesis by simp
qed

end
